theory Spec2Isabelle
  imports Main "HOL-Library.Sublist"
begin

section \<open>Go values the watcher relies on\<close>

text \<open>
  The repository holds two variants of one program, both in \<^verbatim>\<open>src/main.go\<close>: the
  per-theatre (incremental) watcher, lines 1-279, and the first-availability watcher,
  lines 279-564. Each is one long \<^verbatim>\<open>main\<close>; the model cuts it at its own
  blocks and names the pieces after the variables they compute.

  A run stops early in two ways: \<^verbatim>\<open>logger.Fatal\<close> ends the process at once
  (exit status 1), and a panic unwinds to the deferred function of \<^verbatim>\<open>main\<close>,
  which logs it and lets \<^verbatim>\<open>main\<close> return. Neither reaches
  \<^verbatim>\<open>saveMoviesToJSON\<close>.
\<close>

datatype panic =
    NilPointerDereference   \<comment> \<open>a method that reads a field of a nil pointer\<close>
  | SliceBoundsOutOfRange   \<comment> \<open>\<^verbatim>\<open>s[lo:hi]\<close> beyond the length of \<^verbatim>\<open>s\<close>\<close>
  | MustFailed              \<comment> \<open>a \<^verbatim>\<open>Must...\<close> call of the browser library met an error\<close>

datatype abort =
    FatalExit               \<comment> \<open>\<^verbatim>\<open>logger.Fatal\<close>\<close>
  | Panicked panic

text \<open>
  A Go slice is nil or holds elements; the difference shows only when the slice is
  written as JSON (\<^verbatim>\<open>null\<close> against \<^verbatim>\<open>[]\<close>). \<^verbatim>\<open>append\<close> on either
  gives a slice that holds the old elements and the new one.
\<close>

datatype 'a slice = NilSlice | Slice "'a list"

fun elems :: "'a slice \<Rightarrow> 'a list" where
  "elems NilSlice = []"
| "elems (Slice xs) = xs"

definition append_slice :: "'a slice \<Rightarrow> 'a \<Rightarrow> 'a slice" where
  "append_slice s x = Slice (elems s @ [x])"

text \<open>\<^verbatim>\<open>slices.Contains(s, v)\<close>\<close>

definition Contains :: "'a slice \<Rightarrow> 'a \<Rightarrow> bool" where
  "Contains s v = (v \<in> set (elems s))"

text \<open>
  A Go string is a sequence of bytes and \<^verbatim>\<open>s[lo:hi]\<close> slices bytes; it panics
  unless \<^verbatim>\<open>lo <= hi <= len(s)\<close>.
\<close>

definition slice_string :: "string \<Rightarrow> nat \<Rightarrow> nat \<Rightarrow> panic + string" where
  "slice_string s lo hi =
     (if lo \<le> hi \<and> hi \<le> length s then Inr (take (hi - lo) (drop lo s))
      else Inl SliceBoundsOutOfRange)"

section \<open>The data of the program\<close>

text \<open>
  \<^verbatim>\<open>MovieDetails\<close> of the first-availability variant (lines 300-308) has seven
  fields; the incremental variant (lines 20-29) adds \<^verbatim>\<open>Theatres\<close>.
\<close>

record MovieDetails_first =
  Name :: string
  SlugName :: string
  Code :: string
  City :: string
  CityCode :: string
  Date :: string
  Found :: bool

record MovieDetails = MovieDetails_first +
  Theatres :: "string slice"

text \<open>
  \<^verbatim>\<open>TheatreDetails\<close> (lines 31-34). Its \<^verbatim>\<open>Name\<close> is the one an unqualified
  \<open>Name\<close> means from here on; the movie's is written \<open>MovieDetails_first.Name\<close>.
\<close>

record TheatreDetails =
  Name :: string
  ShowCount :: int

section \<open>What the browser returns\<close>

text \<open>
  The page renderer (go-rod) is outside the repository. The model takes the result of
  each call the program makes as an input. A lookup returns an element or
  \<^verbatim>\<open>(nil, err)\<close>, modelled by \<open>None\<close>. An element answers \<^verbatim>\<open>Text()\<close> with
  a string, or with \<^verbatim>\<open>("", err)\<close>, modelled by \<open>None\<close>.
\<close>

datatype Element = Element (Text: "string option")

record TheatreElement =
  Element_name :: "Element option"         \<comment> \<open>\<^verbatim>\<open>theatreEl.Element(".sc-1qdowf4-0.fbRYHb")\<close>\<close>
  Elements_shows :: "Element list option"  \<comment> \<open>\<^verbatim>\<open>theatreEl.Elements(".sc-1la7659-0.bLMTPx")\<close>\<close>

text \<open>The container, with what \<^verbatim>\<open>theatreContainer.Elements(...)\<close> returns.\<close>

datatype 'e Container = Container (Elements: "'e list option")

text \<open>
  Everything outside the program that one pass of the loop body meets, in the order of
  the calls: \<^verbatim>\<open>browser.Connect()\<close> (an error is fatal), the three \<^verbatim>\<open>Must\<close>
  calls (an error is a panic), the container lookup, and the answer of each
  \<^verbatim>\<open>sendTelegramNotification\<close> call, numbered from 0 (\<open>True\<close>: no error).
\<close>

record 'e TargetEnv =
  Connect :: bool
  MustPage :: bool
  MustNavigate :: bool
  MustWaitDOMStable :: bool
  Page_Element :: "'e Container option"
  sendTelegramNotification :: "nat \<Rightarrow> bool"

text \<open>The first-availability variant also calls \<^verbatim>\<open>sendIFTTTVoipCall\<close>.\<close>

record 'e TargetEnv_first = "'e TargetEnv" +
  sendIFTTTVoipCall :: bool

section \<open>The incremental watcher (lines 1-279)\<close>

subsection \<open>Date formatting (line 174, and line 429 of the other variant)\<close>

text \<open>
  \<^verbatim>\<open>fmt.Sprintf("%s-%s-%s", showDate[6:8], showDate[4:6], showDate[0:4])\<close>: the
  arguments are evaluated from left to right.
\<close>

definition formattedDate :: "string \<Rightarrow> panic + string" where
  "formattedDate showDate =
     (case slice_string showDate 6 8 of
        Inl p \<Rightarrow> Inl p
      | Inr dd \<Rightarrow>
          (case slice_string showDate 4 6 of
             Inl p \<Rightarrow> Inl p
           | Inr mm \<Rightarrow>
               (case slice_string showDate 0 4 of
                  Inl p \<Rightarrow> Inl p
                | Inr yyyy \<Rightarrow> Inr (dd @ ''-'' @ mm @ ''-'' @ yyyy))))"

subsection \<open>Extraction (lines 147-158)\<close>

text \<open>
  \<^verbatim>\<open>theatreNameDiv, _ := theatreEl.Element(...)\<close> drops the error, and
  \<^verbatim>\<open>theatreNameDiv.Text()\<close> then reads through the pointer: on nil it panics.
  The error of \<^verbatim>\<open>Text()\<close> itself is dropped too, which leaves the name empty;
  a failed \<^verbatim>\<open>Elements\<close> leaves a nil slice, of length 0.
\<close>

definition Text_of :: "Element option \<Rightarrow> panic + string" where
  "Text_of theatreNameDiv =
     (case theatreNameDiv of
        None \<Rightarrow> Inl NilPointerDereference
      | Some el \<Rightarrow> Inr (case Text el of None \<Rightarrow> [] | Some s \<Rightarrow> s))"

fun extractLoop :: "TheatreDetails list \<Rightarrow> TheatreElement list \<Rightarrow> panic + TheatreDetails list" where
  "extractLoop theatreDetails [] = Inr theatreDetails"
| "extractLoop theatreDetails (theatreEl # rest) =
     (let theatreNameDiv = Element_name theatreEl;
          theatreShowsEl = (case Elements_shows theatreEl of None \<Rightarrow> [] | Some els \<Rightarrow> els)
      in case Text_of theatreNameDiv of
           Inl p \<Rightarrow> Inl p
         | Inr theatreName \<Rightarrow>
             extractLoop
               (theatreDetails @ [\<lparr>Name = theatreName, ShowCount = int (length theatreShowsEl)\<rparr>])
               rest)"

definition extractTheatres :: "TheatreElement list \<Rightarrow> panic + TheatreDetails list" where
  "extractTheatres theatreElements =
     (if length theatreElements > 0 then extractLoop [] theatreElements else Inr [])"

subsection \<open>Reconciliation (lines 160-170)\<close>

text \<open>
  The loop runs over the extracted observations with two variables: the target, whose
  \<^verbatim>\<open>Theatres\<close> it extends, and \<^verbatim>\<open>newTheatres\<close>, the observations to notify.
\<close>

fun reconcileLoop ::
  "MovieDetails \<Rightarrow> TheatreDetails list \<Rightarrow> TheatreDetails list \<Rightarrow> MovieDetails \<times> TheatreDetails list" where
  "reconcileLoop m newTheatres [] = (m, newTheatres)"
| "reconcileLoop m newTheatres (theatre # rest) =
     (if Name theatre = [] then reconcileLoop m newTheatres rest
      else if \<not> Contains (Theatres m) (Name theatre) then
        reconcileLoop (m\<lparr>Theatres := append_slice (Theatres m) (Name theatre)\<rparr>)
          (newTheatres @ [theatre]) rest
      else reconcileLoop m newTheatres rest)"

definition reconcile :: "MovieDetails \<Rightarrow> TheatreDetails list \<Rightarrow> MovieDetails \<times> TheatreDetails list" where
  "reconcile m theatreDetails = reconcileLoop m [] theatreDetails"

subsection \<open>Notification (lines 172-208)\<close>

text \<open>
  The booking link of line 123. The message of line 177 is a fixed template filled
  with the movie's name, the formatted date, the theatre's name and its show count;
  the model keeps these values and the link of the button, not the template's text.
\<close>

definition bookingURL :: "'a MovieDetails_first_scheme \<Rightarrow> string" where
  "bookingURL m =
     ''https://in.bookmyshow.com/movies/'' @ City m @ ''/'' @ SlugName m @
     ''/buytickets/'' @ Code m @ ''/'' @ Date m"

record Notification =
  msg_movie :: string
  msg_date :: string
  msg_theatre :: string
  msg_shows :: int
  button_url :: string

text \<open>
  One call of \<^verbatim>\<open>sendTelegramNotification\<close>, with whether it returned no error.
  An error is logged and the loop goes on.
\<close>

record Sent =
  message :: Notification
  delivered :: bool

fun sendLoop ::
  "(nat \<Rightarrow> bool) \<Rightarrow> nat \<Rightarrow> MovieDetails \<Rightarrow> string \<Rightarrow> TheatreDetails list \<Rightarrow> Sent list" where
  "sendLoop send k m date [] = []"
| "sendLoop send k m date (theatre # rest) =
     \<lparr>message = \<lparr>msg_movie = MovieDetails_first.Name m, msg_date = date,
                  msg_theatre = Name theatre, msg_shows = ShowCount theatre,
                  button_url = bookingURL m\<rparr>,
      delivered = send k\<rparr> # sendLoop send (Suc k) m date rest"

definition notify ::
  "(nat \<Rightarrow> bool) \<Rightarrow> MovieDetails \<Rightarrow> TheatreDetails list \<Rightarrow> panic + Sent list" where
  "notify send m newTheatres =
     (if length newTheatres > 0 then
        (case formattedDate (Date m) of
           Inl p \<Rightarrow> Inl p
         | Inr date \<Rightarrow> Inr (sendLoop send 0 m date newTheatres))
      else Inr [])"

text \<open>Lines 160-208 together: the new theatres are found, then notified.\<close>

definition reconcileAndNotify ::
  "(nat \<Rightarrow> bool) \<Rightarrow> MovieDetails \<Rightarrow> TheatreDetails list \<Rightarrow>
   panic + (MovieDetails \<times> Sent list)" where
  "reconcileAndNotify send m theatreDetails =
     (case reconcile m theatreDetails of
        (m', newTheatres) \<Rightarrow>
          (case notify send m' newTheatres of
             Inl p \<Rightarrow> Inl p
           | Inr sent \<Rightarrow> Inr (m', sent)))"

subsection \<open>One pass of the loop body (lines 110-208)\<close>

definition processMovie ::
  "TheatreElement TargetEnv \<Rightarrow> MovieDetails \<Rightarrow> abort + (MovieDetails \<times> Sent list)" where
  "processMovie env m =
     (if Found m then Inr (m, [])
      else if \<not> Connect env then Inl FatalExit
      else if \<not> MustPage env then Inl (Panicked MustFailed)
      else if \<not> MustNavigate env then Inl (Panicked MustFailed)
      else if \<not> MustWaitDOMStable env then Inl (Panicked MustFailed)
      else case Page_Element env of
        None \<Rightarrow> Inr (m, [])
      | Some theatreContainer \<Rightarrow>
          (case Elements theatreContainer of
             None \<Rightarrow> Inr (m, [])
           | Some theatreElements \<Rightarrow>
               (case extractTheatres theatreElements of
                  Inl p \<Rightarrow> Inl (Panicked p)
                | Inr theatreDetails \<Rightarrow>
                    (case reconcileAndNotify (sendTelegramNotification env) m theatreDetails of
                       Inl p \<Rightarrow> Inl (Panicked p)
                     | Inr r \<Rightarrow> Inr r))))"

subsection \<open>The loop over the targets (lines 109-209)\<close>

text \<open>\<open>envs i\<close> is what the pass for \<^verbatim>\<open>moviesList[i]\<close> meets.\<close>

fun processMovies ::
  "(nat \<Rightarrow> TheatreElement TargetEnv) \<Rightarrow> nat \<Rightarrow> MovieDetails list \<Rightarrow>
   abort + (MovieDetails list \<times> Sent list)" where
  "processMovies envs i [] = Inr ([], [])"
| "processMovies envs i (m # rest) =
     (case processMovie (envs i) m of
        Inl a \<Rightarrow> Inl a
      | Inr (m', sent) \<Rightarrow>
          (case processMovies envs (Suc i) rest of
             Inl a \<Rightarrow> Inl a
           | Inr (rest', sent') \<Rightarrow> Inr (m' # rest', sent @ sent')))"

section \<open>The first-availability watcher (lines 279-564)\<close>

text \<open>
  The booking link of line 403. The message of line 430 is a fixed template filled
  with the movie's name, the formatted date, the number of theatre elements and the
  city; the model keeps these values. The city is shown as
  \<^verbatim>\<open>cases.Title(language.English).String(City)\<close> returns it: the casing is the
  library's, and \<open>alert_city\<close> is the argument it is given.
\<close>

definition bookingURL_first :: "'a MovieDetails_first_scheme \<Rightarrow> string" where
  "bookingURL_first m =
     ''https://in.bookmyshow.com/buytickets/'' @ SlugName m @ ''-'' @ City m @
     ''/movie-'' @ CityCode m @ ''-'' @ Code m @ ''-MT/'' @ Date m"

record Alert =
  alert_movie :: string
  alert_date :: string
  alert_theatres :: int
  alert_city :: string
  alert_url :: string

text \<open>
  The two calls made for one alert, \<^verbatim>\<open>sendTelegramNotification\<close> and
  \<^verbatim>\<open>sendIFTTTVoipCall\<close>, each with whether it returned no error. The second is
  made whatever the first returned.
\<close>

record Sent_first =
  alert :: Alert
  alert_delivered :: bool
  call_value1 :: string
  call_delivered :: bool

subsection \<open>The block of lines 426-467\<close>

definition foundBookings ::
  "'e TargetEnv_first \<Rightarrow> MovieDetails_first \<Rightarrow> 'e list \<Rightarrow>
   panic + (MovieDetails_first \<times> Sent_first list)" where
  "foundBookings env m theatreElements =
     (if length theatreElements > 0 then
        (let m' = m\<lparr>Found := True\<rparr> in
         case formattedDate (Date m') of
           Inl p \<Rightarrow> Inl p
         | Inr date \<Rightarrow>
             Inr (m',
               [\<lparr>alert = \<lparr>alert_movie = MovieDetails_first.Name m', alert_date = date,
                           alert_theatres = int (length theatreElements),
                           alert_city = City m', alert_url = bookingURL_first m'\<rparr>,
                 alert_delivered = sendTelegramNotification env 0,
                 call_value1 = MovieDetails_first.Name m',
                 call_delivered = sendIFTTTVoipCall env\<rparr>]))
      else Inr (m, []))"

subsection \<open>One pass of the loop body (lines 390-467)\<close>

definition processMovie_first ::
  "'e TargetEnv_first \<Rightarrow> MovieDetails_first \<Rightarrow>
   abort + (MovieDetails_first \<times> Sent_first list)" where
  "processMovie_first env m =
     (if Found m then Inr (m, [])
      else if \<not> Connect env then Inl FatalExit
      else if \<not> MustPage env then Inl (Panicked MustFailed)
      else if \<not> MustNavigate env then Inl (Panicked MustFailed)
      else if \<not> MustWaitDOMStable env then Inl (Panicked MustFailed)
      else case Page_Element env of
        None \<Rightarrow> Inr (m, [])
      | Some theatreContainer \<Rightarrow>
          (case Elements theatreContainer of
             None \<Rightarrow> Inr (m, [])
           | Some theatreElements \<Rightarrow>
               (case foundBookings env m theatreElements of
                  Inl p \<Rightarrow> Inl (Panicked p)
                | Inr r \<Rightarrow> Inr r)))"

subsection \<open>The loop over the targets (lines 389-468)\<close>

fun processMovies_first ::
  "(nat \<Rightarrow> 'e TargetEnv_first) \<Rightarrow> nat \<Rightarrow> MovieDetails_first list \<Rightarrow>
   abort + (MovieDetails_first list \<times> Sent_first list)" where
  "processMovies_first envs i [] = Inr ([], [])"
| "processMovies_first envs i (m # rest) =
     (case processMovie_first (envs i) m of
        Inl a \<Rightarrow> Inl a
      | Inr (m', sent) \<Rightarrow>
          (case processMovies_first envs (Suc i) rest of
             Inl a \<Rightarrow> Inl a
           | Inr (rest', sent') \<Rightarrow> Inr (m' # rest', sent @ sent')))"

section \<open>The state file (lines 219-243)\<close>

text \<open>
  \<^verbatim>\<open>loadMoviesFromJSON\<close> and \<^verbatim>\<open>saveMoviesToJSON\<close> hand the work to
  \<^verbatim>\<open>encoding/json\<close>, which is outside the repository. What the program fixes
  is the target type \<^verbatim>\<open>[]MovieDetails\<close> and the tag of each field; the model
  follows the library's documented rules for that type, on JSON values: the text of
  the file is taken as already parsed, and a string of a value is the text it stands
  for (the library rewrites bytes that are not valid UTF-8, on reading and on writing;
  such strings are outside the model).
\<close>

datatype json =
    JNull
  | JBool bool
  | JNumber string
  | JString string
  | JArray "json list"
  | JObject "(string \<times> json) list"

text \<open>
  A key of an object selects the field whose tag equals it or, failing that, the
  first whose tag equals it when case is ignored. The library compares folded names:
  ASCII letters in upper case, and the two letters outside ASCII that fold into ASCII,
  U+017F (bytes C5 BF) to S and U+212A (bytes E2 84 AA) to K.
\<close>

fun foldName :: "string \<Rightarrow> string" where
  "foldName [] = []"
| "foldName (c # cs) =
     (if of_char c < (128::nat) then
        (if (97::nat) \<le> of_char c \<and> of_char c \<le> (122::nat)
         then char_of (of_char c - (32::nat)) else c) # foldName cs
      else if of_char c = (0xC5::nat) \<and> take 1 cs = [char_of (0xBF::nat)]
        then CHR ''S'' # foldName (drop 1 cs)
      else if of_char c = (0xE2::nat) \<and> take 2 cs = [char_of (0x84::nat), char_of (0xAA::nat)]
        then CHR ''K'' # foldName (drop 2 cs)
      else c # foldName cs)"

definition fieldTags :: "string list" where
  "fieldTags =
     [''name'', ''slug_name'', ''code'', ''city'', ''city_code'', ''date'', ''found'',
      ''theatres'']"

definition fieldFor :: "string \<Rightarrow> string option" where
  "fieldFor key =
     (case find (\<lambda>tag. tag = key) fieldTags of
        Some tag \<Rightarrow> Some tag
      | None \<Rightarrow> find (\<lambda>tag. foldName tag = foldName key) fieldTags)"

text \<open>
  Decoding stores into the value the field already has. \<^verbatim>\<open>null\<close> leaves a
  string or a bool as it is and makes a slice nil; a value of another JSON type is an
  \<^verbatim>\<open>UnmarshalTypeError\<close>, which \<^verbatim>\<open>Unmarshal\<close> returns in the end
  (\<open>None\<close>).
\<close>

fun unmarshal_string :: "string \<Rightarrow> json \<Rightarrow> string option" where
  "unmarshal_string cur (JString s) = Some s"
| "unmarshal_string cur JNull = Some cur"
| "unmarshal_string cur _ = None"

fun unmarshal_bool :: "bool \<Rightarrow> json \<Rightarrow> bool option" where
  "unmarshal_bool cur (JBool b) = Some b"
| "unmarshal_bool cur JNull = Some cur"
| "unmarshal_bool cur _ = None"

text \<open>
  An array is decoded element by element into the slice's backing array; element \<open>i\<close>
  starts from what the backing array holds at \<open>i\<close> and from the empty string beyond
  it. The backing array holds the elements of the slice and, after them, what an
  earlier and longer array of the same object left there (a key given more than once):
  the library cuts the slice to the length of the array it has just read and does not
  clear the rest, so a later \<^verbatim>\<open>null\<close> element can bring such a string back.
\<close>

fun unmarshal_elements :: "string list \<Rightarrow> json list \<Rightarrow> string list option" where
  "unmarshal_elements backing [] = Some []"
| "unmarshal_elements backing (v # vs) =
     (case unmarshal_string (case backing of [] \<Rightarrow> [] | c # _ \<Rightarrow> c) v of
        None \<Rightarrow> None
      | Some s \<Rightarrow> map_option ((#) s) (unmarshal_elements (tl backing) vs))"

text \<open>
  The slice decoded from a value, with what its backing array holds beyond its length.
  \<^verbatim>\<open>null\<close> makes the slice nil and \<^verbatim>\<open>[]\<close> makes a new empty slice; neither
  keeps a backing array.
\<close>

fun unmarshal_strings :: "string list \<Rightarrow> json \<Rightarrow> (string slice \<times> string list) option" where
  "unmarshal_strings backing JNull = Some (NilSlice, [])"
| "unmarshal_strings backing (JArray vs) =
     (if vs = [] then Some (Slice [], [])
      else map_option (\<lambda>ts. (Slice ts, drop (length vs) backing)) (unmarshal_elements backing vs))"
| "unmarshal_strings backing _ = None"

text \<open>
  A target being decoded: the struct, and what the backing array of its
  \<^verbatim>\<open>Theatres\<close> holds beyond the slice's length.
\<close>

definition setField ::
  "string \<Rightarrow> json \<Rightarrow> MovieDetails \<times> string list \<Rightarrow> (MovieDetails \<times> string list) option" where
  "setField tag v ms =
     (case ms of (m, spare) \<Rightarrow>
       (if tag = ''name'' then
          map_option (\<lambda>s. (m\<lparr>MovieDetails_first.Name := s\<rparr>, spare))
            (unmarshal_string (MovieDetails_first.Name m) v)
        else if tag = ''slug_name'' then
          map_option (\<lambda>s. (m\<lparr>SlugName := s\<rparr>, spare)) (unmarshal_string (SlugName m) v)
        else if tag = ''code'' then
          map_option (\<lambda>s. (m\<lparr>Code := s\<rparr>, spare)) (unmarshal_string (Code m) v)
        else if tag = ''city'' then
          map_option (\<lambda>s. (m\<lparr>City := s\<rparr>, spare)) (unmarshal_string (City m) v)
        else if tag = ''city_code'' then
          map_option (\<lambda>s. (m\<lparr>CityCode := s\<rparr>, spare)) (unmarshal_string (CityCode m) v)
        else if tag = ''date'' then
          map_option (\<lambda>s. (m\<lparr>Date := s\<rparr>, spare)) (unmarshal_string (Date m) v)
        else if tag = ''found'' then
          map_option (\<lambda>b. (m\<lparr>Found := b\<rparr>, spare)) (unmarshal_bool (Found m) v)
        else if tag = ''theatres'' then
          map_option (\<lambda>(t, spare'). (m\<lparr>Theatres := t\<rparr>, spare'))
            (unmarshal_strings (elems (Theatres m) @ spare) v)
        else Some (m, spare)))"

text \<open>The members of an object are decoded in the order of the document.\<close>

fun unmarshal_members ::
  "(string \<times> json) list \<Rightarrow> MovieDetails \<times> string list \<Rightarrow> (MovieDetails \<times> string list) option" where
  "unmarshal_members [] ms = Some ms"
| "unmarshal_members ((key, v) # rest) ms =
     (case fieldFor key of
        None \<Rightarrow> unmarshal_members rest ms
      | Some tag \<Rightarrow>
          (case setField tag v ms of
             None \<Rightarrow> None
           | Some ms' \<Rightarrow> unmarshal_members rest ms'))"

definition zeroMovieDetails :: MovieDetails where
  "zeroMovieDetails =
     \<lparr>MovieDetails_first.Name = [], SlugName = [], Code = [], City = [], CityCode = [],
      Date = [], Found = False, Theatres = NilSlice\<rparr>"

fun unmarshal_MovieDetails :: "json \<Rightarrow> MovieDetails option" where
  "unmarshal_MovieDetails JNull = Some zeroMovieDetails"
| "unmarshal_MovieDetails (JObject members) =
     map_option fst (unmarshal_members members (zeroMovieDetails, []))"
| "unmarshal_MovieDetails _ = None"

fun unmarshal_list :: "json list \<Rightarrow> MovieDetails list option" where
  "unmarshal_list [] = Some []"
| "unmarshal_list (v # vs) =
     (case unmarshal_MovieDetails v of
        None \<Rightarrow> None
      | Some m \<Rightarrow> map_option ((#) m) (unmarshal_list vs))"

fun Unmarshal :: "json \<Rightarrow> MovieDetails slice option" where
  "Unmarshal JNull = Some NilSlice"
| "Unmarshal (JArray vs) = map_option Slice (unmarshal_list vs)"
| "Unmarshal _ = None"

text \<open>
  \<^verbatim>\<open>json.MarshalIndent\<close> writes every field under its tag, in the order of the
  struct (no tag has \<^verbatim>\<open>omitempty\<close>), a nil slice as \<^verbatim>\<open>null\<close>.
\<close>

definition marshal_MovieDetails :: "MovieDetails \<Rightarrow> json" where
  "marshal_MovieDetails m =
     JObject
       [(''name'', JString (MovieDetails_first.Name m)),
        (''slug_name'', JString (SlugName m)),
        (''code'', JString (Code m)),
        (''city'', JString (City m)),
        (''city_code'', JString (CityCode m)),
        (''date'', JString (Date m)),
        (''found'', JBool (Found m)),
        (''theatres'', (case Theatres m of NilSlice \<Rightarrow> JNull | Slice ts \<Rightarrow> JArray (map JString ts)))]"

definition MarshalIndent :: "MovieDetails slice \<Rightarrow> json" where
  "MarshalIndent moviesList =
     (case moviesList of NilSlice \<Rightarrow> JNull | Slice ms \<Rightarrow> JArray (map marshal_MovieDetails ms))"

text \<open>
  The file as \<^verbatim>\<open>os.ReadFile\<close> and the parser meet it: missing or unreadable,
  not JSON, or a JSON document.
\<close>

datatype state_file = NoFile | NotJSON | Document json
datatype load_error = ReadFileError | UnmarshalError

definition loadMoviesFromJSON :: "state_file \<Rightarrow> load_error + MovieDetails slice" where
  "loadMoviesFromJSON f =
     (case f of
        NoFile \<Rightarrow> Inl ReadFileError
      | NotJSON \<Rightarrow> Inl UnmarshalError
      | Document d \<Rightarrow> (case Unmarshal d of None \<Rightarrow> Inl UnmarshalError | Some moviesList \<Rightarrow> Inr moviesList))"

text \<open>
  \<^verbatim>\<open>saveMoviesToJSON\<close>: the document it hands to \<^verbatim>\<open>os.WriteFile\<close>.
  Marshalling this type cannot fail; whether the write succeeds is the world's.
\<close>

definition saveMoviesToJSON :: "MovieDetails slice \<Rightarrow> json" where
  "saveMoviesToJSON moviesList = MarshalIndent moviesList"

section \<open>The run of the incremental watcher (lines 87-217)\<close>

text \<open>
  The world of one run: the state file, what the pass for each index meets, and
  whether the final \<^verbatim>\<open>os.WriteFile\<close> succeeds.
\<close>

record World =
  StateFile :: state_file
  Targets :: "nat \<Rightarrow> TheatreElement TargetEnv"
  WriteFile :: bool

text \<open>
  How a run ends. \<open>Exit1\<close>: \<^verbatim>\<open>logger.Fatal\<close> ended the process, nothing was
  saved. \<open>Recovered p\<close>: a panic reached the deferred function, \<^verbatim>\<open>main\<close>
  returned, nothing was saved. \<open>Completed moviesList ok sent\<close>:
  \<^verbatim>\<open>saveMoviesToJSON\<close> was called with \<open>moviesList\<close>; \<open>ok\<close> tells whether the
  write succeeded (a failure is logged); \<open>sent\<close> are the notification calls made.
\<close>

datatype Outcome =
    Exit1
  | Recovered panic
  | Completed "MovieDetails slice" bool "Sent list"

text \<open>The loop assigns to the elements of the slice in place.\<close>

definition with_elems :: "'a slice \<Rightarrow> 'a list \<Rightarrow> 'a slice" where
  "with_elems moviesList ms = (case moviesList of NilSlice \<Rightarrow> NilSlice | Slice _ \<Rightarrow> Slice ms)"

definition main :: "World \<Rightarrow> Outcome" where
  "main w =
     (case loadMoviesFromJSON (StateFile w) of
        Inl err \<Rightarrow> Exit1
      | Inr moviesList \<Rightarrow>
          (case processMovies (Targets w) 0 (elems moviesList) of
             Inl FatalExit \<Rightarrow> Exit1
           | Inl (Panicked p) \<Rightarrow> Recovered p
           | Inr (ms, sent) \<Rightarrow> Completed (with_elems moviesList ms) (WriteFile w) sent))"

text \<open>
  The state file after a run. The program writes it in one place, the
  \<^verbatim>\<open>os.WriteFile\<close> of \<^verbatim>\<open>saveMoviesToJSON\<close>: a run that ends before it leaves the
  file as it was. When the write fails, what the file holds is not known (\<open>None\<close>).
\<close>

definition file_after :: "World \<Rightarrow> state_file option" where
  "file_after w =
     (case main w of
        Exit1 \<Rightarrow> Some (StateFile w)
      | Recovered p \<Rightarrow> Some (StateFile w)
      | Completed moviesList ok sent \<Rightarrow>
          if ok then Some (Document (saveMoviesToJSON moviesList)) else None)"

section \<open>Sample inputs\<close>

text \<open>
  The targets, pages and worlds at which the theorems below are evaluated. The
  target is the one of the repository's README; its date and its theatres vary.
\<close>

definition sample_first :: "string \<Rightarrow> MovieDetails_first" where
  "sample_first date =
     \<lparr>MovieDetails_first.Name = ''Officer On Duty'', SlugName = ''officer-on-duty'',
      Code = ''ET00431676'', City = ''kochi'', CityCode = ''koch'', Date = date,
      Found = False\<rparr>"

definition sample :: "string \<Rightarrow> string slice \<Rightarrow> MovieDetails" where
  "sample date theatres =
     \<lparr>MovieDetails_first.Name = ''Officer On Duty'', SlugName = ''officer-on-duty'',
      Code = ''ET00431676'', City = ''kochi'', CityCode = ''koch'', Date = date,
      Found = False, Theatres = theatres\<rparr>"

text \<open>A pass in which the browser connects, the page opens and the container holds \<open>items\<close>.\<close>

definition rendered :: "'e list \<Rightarrow> (nat \<Rightarrow> bool) \<Rightarrow> 'e TargetEnv" where
  "rendered items send =
     \<lparr>Connect = True, MustPage = True, MustNavigate = True, MustWaitDOMStable = True,
      Page_Element = Some (Container (Some items)), sendTelegramNotification = send\<rparr>"

definition rendered_first :: "'e list \<Rightarrow> bool \<Rightarrow> bool \<Rightarrow> 'e TargetEnv_first" where
  "rendered_first items telegram call =
     \<lparr>Connect = True, MustPage = True, MustNavigate = True, MustWaitDOMStable = True,
      Page_Element = Some (Container (Some items)),
      sendTelegramNotification = (\<lambda>k. telegram), sendIFTTTVoipCall = call\<rparr>"

text \<open>A theatre element with its name and the number of its show elements.\<close>

definition theatre_element :: "string \<Rightarrow> nat \<Rightarrow> TheatreElement" where
  "theatre_element name shows =
     \<lparr>Element_name = Some (Element (Some name)),
      Elements_shows = Some (replicate shows (Element None))\<rparr>"

text \<open>
  A state file of two targets, written as in the README (no \<^verbatim>\<open>theatres\<close> key), for
  the dates 20250327 and 20250328; the world around it saves successfully.
\<close>

definition sample_object :: "string \<Rightarrow> json" where
  "sample_object date =
     JObject
       [(''name'', JString ''Officer On Duty''), (''slug_name'', JString ''officer-on-duty''),
        (''code'', JString ''ET00431676''), (''city'', JString ''kochi''),
        (''city_code'', JString ''koch''), (''date'', JString date), (''found'', JBool False)]"

definition sample_world :: "(nat \<Rightarrow> TheatreElement TargetEnv) \<Rightarrow> World" where
  "sample_world envs =
     \<lparr>StateFile = Document (JArray [sample_object ''20250327'', sample_object ''20250328'']),
      Targets = envs, WriteFile = True\<rparr>"

text \<open>
  A target written by hand: found, with one theatre, its keys in another order and
  four of them left out.
\<close>

definition listed_object :: json where
  "listed_object =
     JObject
       [(''theatres'', JArray [JString ''Theatre X'']), (''found'', JBool True),
        (''name'', JString ''Officer On Duty''), (''date'', JString ''20250327'')]"

section \<open>Conditions on a pass\<close>

text \<open>
  Three conditions on what a pass meets, used to state when a run reaches the save:
  the browser connects and no \<^verbatim>\<open>Must\<close> call fails; every theatre element of the
  page has a name element; the container or its list of theatre elements is not found.
\<close>

definition page_opens :: "('e, 'z) TargetEnv_scheme \<Rightarrow> bool" where
  "page_opens env = (Connect env \<and> MustPage env \<and> MustNavigate env \<and> MustWaitDOMStable env)"

definition names_found :: "TheatreElement TargetEnv \<Rightarrow> bool" where
  "names_found env =
     (case Page_Element env of
        None \<Rightarrow> True
      | Some c \<Rightarrow>
          (case Elements c of
             None \<Rightarrow> True
           | Some els \<Rightarrow> list_all (\<lambda>el. Element_name el \<noteq> None) els))"

definition container_missing :: "('e, 'z) TargetEnv_scheme \<Rightarrow> bool" where
  "container_missing env =
     (case Page_Element env of None \<Rightarrow> True | Some c \<Rightarrow> Elements c = None)"

section \<open>Trimming, as the specification words it\<close>

text \<open>
  The specification speaks of a display name "trimmed" of surrounding whitespace. The
  program has no such step; this definition follows the specification's words (white
  space as \<^verbatim>\<open>strings.TrimSpace\<close> has it on ASCII: space, tab, line feed, vertical tab,
  form feed, carriage return) so that the two can be compared.
\<close>

definition isSpace :: "char \<Rightarrow> bool" where
  "isSpace c = (c \<in> {CHR '' '', CHR 0x09, CHR 0x0A, CHR 0x0B, CHR 0x0C, CHR 0x0D})"

definition spec_trimmed :: "string \<Rightarrow> string" where
  "spec_trimmed s = rev (dropWhile isSpace (rev (dropWhile isSpace s)))"

section \<open>The state document, as the specification words it\<close>

text \<open>
  The specification gives the state file as a JSON array of records
  \<^verbatim>\<open>[{name, slug_name, code, city, city_code, date, found: bool, theatres?: [string]}]\<close>.
  These definitions follow its words, so that a document can be compared, field by
  field, with the one written after loading it. A target is an object whose keys are
  names of fields, each at most once; the six identity fields hold strings,
  \<^verbatim>\<open>found\<close> a boolean, \<^verbatim>\<open>theatres\<close> a list of strings or \<^verbatim>\<open>null\<close> (which is
  what the program writes for a target with no theatre). A field may be left out, as
  \<^verbatim>\<open>theatres\<close> is in the README.
\<close>

fun spec_string :: "json \<Rightarrow> bool" where
  "spec_string (JString s) = True"
| "spec_string _ = False"

definition spec_value :: "string \<Rightarrow> json \<Rightarrow> bool" where
  "spec_value field v =
     (if field = ''found'' then (case v of JBool b \<Rightarrow> True | _ \<Rightarrow> False)
      else if field = ''theatres'' then
        (case v of JNull \<Rightarrow> True | JArray vs \<Rightarrow> list_all spec_string vs | _ \<Rightarrow> False)
      else spec_string v)"

fun spec_target :: "json \<Rightarrow> bool" where
  "spec_target (JObject members) =
     (distinct (map fst members) \<and>
      list_all (\<lambda>(field, v). field \<in> set fieldTags \<and> spec_value field v) members)"
| "spec_target _ = False"

fun spec_state_document :: "json \<Rightarrow> bool" where
  "spec_state_document (JArray targets) = list_all spec_target targets"
| "spec_state_document _ = False"

text \<open>The value a target of a document gives a field, if it names the field.\<close>

fun field_of :: "json \<Rightarrow> string \<Rightarrow> json option" where
  "field_of (JObject members) field = map_of members field"
| "field_of _ field = None"

section \<open>Date formatting\<close>

lemma take2_drop:
  assumes "n + 2 \<le> length d"
  shows "take 2 (drop n d) = [d ! n, d ! Suc n]"
proof -
  have "drop n d = d ! n # drop (Suc n) d"
    using assms by (simp add: Cons_nth_drop_Suc)
  moreover have "drop (Suc n) d = d ! Suc n # drop (Suc (Suc n)) d"
    using assms by (simp add: Cons_nth_drop_Suc)
  ultimately show ?thesis
    by (simp add: numeral_2_eq_2)
qed

lemma take4:
  assumes "4 \<le> length d"
  shows "take 4 d = [d ! 0, d ! 1, d ! 2, d ! 3]"
  using assms by (auto simp add: list_eq_iff_nth_eq less_Suc_eq eval_nat_numeral min_def)

lemma formattedDate_long:
  assumes "8 \<le> length d"
  shows "formattedDate d =
    Inr ([d ! 6, d ! 7] @ ''-'' @ [d ! 4, d ! 5] @ ''-'' @ [d ! 0, d ! 1, d ! 2, d ! 3])"
  using assms take2_drop[of 6 d] take2_drop[of 4 d] take4[of d]
  by (simp add: formattedDate_def slice_string_def eval_nat_numeral)

lemma formattedDate_short:
  "length d < 8 \<Longrightarrow> formattedDate d = Inl SliceBoundsOutOfRange"
  by (simp add: formattedDate_def slice_string_def)

text \<open>
  C9. The date is formatted only when it has at least 8 bytes: the result is then
  bytes 7-8, 5-6 and 1-4 of the date (counted from 1) joined by hyphens. On a shorter
  date the first slice, \<^verbatim>\<open>showDate[6:8]\<close>, is out of range and the program
  panics, in the incremental watcher as soon as there is a theatre to notify (line
  174) and in the first-availability watcher as soon as a theatre is listed (line 429).
\<close>

theorem formattedDate_needs_8_bytes:
  "(8 \<le> length d \<longrightarrow>
      formattedDate d =
        Inr ([d ! 6, d ! 7] @ ''-'' @ [d ! 4, d ! 5] @ ''-'' @ [d ! 0, d ! 1, d ! 2, d ! 3])) \<and>
   (length d < 8 \<longrightarrow>
      formattedDate d = Inl SliceBoundsOutOfRange \<and>
      (Date m = d \<and> newTheatres \<noteq> [] \<longrightarrow>
         notify send m newTheatres = Inl SliceBoundsOutOfRange) \<and>
      (Date m1 = d \<and> theatreElements \<noteq> [] \<longrightarrow>
         foundBookings env m1 theatreElements = Inl SliceBoundsOutOfRange))"
  by (auto simp add: formattedDate_long formattedDate_short notify_def foundBookings_def)

theorem formattedDate_needs_8_bytes_witness:
  "formattedDate ''20250327'' = Inr ''27-03-2025'' \<and>
   formattedDate ''2025032'' = Inl SliceBoundsOutOfRange \<and>
   notify (\<lambda>k. True)
     \<lparr>MovieDetails_first.Name = ''L2'', SlugName = ''l2'', Code = ''ET1'', City = ''kochi'',
      CityCode = ''koch'', Date = ''2025032'', Found = False, Theatres = NilSlice\<rparr>
     [\<lparr>Name = ''Theatre X'', ShowCount = 3\<rparr>] = Inl SliceBoundsOutOfRange \<and>
   foundBookings
     \<lparr>Connect = True, MustPage = True, MustNavigate = True, MustWaitDOMStable = True,
      Page_Element = Some (Container (Some [()])), sendTelegramNotification = (\<lambda>k. True),
      sendIFTTTVoipCall = True\<rparr>
     \<lparr>MovieDetails_first.Name = ''L2'', SlugName = ''l2'', Code = ''ET1'', City = ''kochi'',
      CityCode = ''koch'', Date = ''2025032'', Found = False\<rparr>
     [()] = Inl SliceBoundsOutOfRange"
  using
    formattedDate_needs_8_bytes [where d = "''20250327''"]
    formattedDate_needs_8_bytes
      [where d = "''2025032''" and send = "\<lambda>k. True"
       and m = "\<lparr>MovieDetails_first.Name = ''L2'', SlugName = ''l2'', Code = ''ET1'',
              City = ''kochi'', CityCode = ''koch'', Date = ''2025032'', Found = False,
              Theatres = NilSlice\<rparr>"
       and newTheatres = "[\<lparr>Name = ''Theatre X'', ShowCount = 3\<rparr>]"
       and env = "\<lparr>Connect = True, MustPage = True, MustNavigate = True,
              MustWaitDOMStable = True, Page_Element = Some (Container (Some [()])),
              sendTelegramNotification = (\<lambda>k. True), sendIFTTTVoipCall = True\<rparr>"
       and ?m1.0 = "\<lparr>MovieDetails_first.Name = ''L2'', SlugName = ''l2'', Code = ''ET1'',
              City = ''kochi'', CityCode = ''koch'', Date = ''2025032'', Found = False\<rparr>"
       and theatreElements = "[()]"]
  by simp

section \<open>Reconciliation in the incremental watcher\<close>

lemma elems_append_slice [simp]: "elems (append_slice s x) = elems s @ [x]"
  by (simp add: append_slice_def)

text \<open>
  The loop with its accumulator: what it appends to \<open>newTheatres\<close> is a subsequence of
  the observations with one entry per new name, each the first observation of its name.
\<close>

lemma reconcileLoop_acc:
  "reconcileLoop m acc obs = (m', evs) \<Longrightarrow>
     \<exists>new. evs = acc @ new \<and>
       m' = m\<lparr>Theatres :=
              (if new = [] then Theatres m else Slice (elems (Theatres m) @ map Name new))\<rparr> \<and>
       subseq new obs \<and> distinct (map Name new) \<and>
       set (map Name new) = {n \<in> Name ` set obs. n \<noteq> [] \<and> n \<notin> set (elems (Theatres m))} \<and>
       (\<forall>e \<in> set new. find (\<lambda>t. Name t = Name e) obs = Some e)"
proof (induction obs arbitrary: m acc m' evs)
  case Nil
  then show ?case by simp
next
  case (Cons t ts)
  show ?case
  proof (cases "Name t = [] \<or> Name t \<in> set (elems (Theatres m))")
    case True
    with Cons.prems have "reconcileLoop m acc ts = (m', evs)"
      by (auto simp: Contains_def split: if_splits)
    from Cons.IH[OF this] obtain new where n: "evs = acc @ new"
      "m' = m\<lparr>Theatres :=
              (if new = [] then Theatres m else Slice (elems (Theatres m) @ map Name new))\<rparr>"
      "subseq new ts" "distinct (map Name new)"
      "set (map Name new) = {n \<in> Name ` set ts. n \<noteq> [] \<and> n \<notin> set (elems (Theatres m))}"
      "\<forall>e \<in> set new. find (\<lambda>t. Name t = Name e) ts = Some e" by blast
    have "Name t \<notin> set (map Name new)" unfolding n(5) using True by blast
    then have ne: "\<forall>e \<in> set new. Name t \<noteq> Name e" by auto
    have s: "set (map Name new) =
        {n \<in> Name ` set (t # ts). n \<noteq> [] \<and> n \<notin> set (elems (Theatres m))}"
      unfolding n(5) using True by auto
    have f: "\<forall>e \<in> set new. find (\<lambda>x. Name x = Name e) (t # ts) = Some e"
      using n(6) ne by simp
    have "subseq new (t # ts)" using n(3) by (rule list_emb_Cons)
    with n(1,2,4) s f show ?thesis by blast
  next
    case False
    let ?m = "m\<lparr>Theatres := append_slice (Theatres m) (Name t)\<rparr>"
    from False Cons.prems have "reconcileLoop ?m (acc @ [t]) ts = (m', evs)"
      by (auto simp: Contains_def)
    from Cons.IH[OF this] obtain new where n: "evs = (acc @ [t]) @ new"
      "m' = ?m\<lparr>Theatres :=
              (if new = [] then Theatres ?m else Slice (elems (Theatres ?m) @ map Name new))\<rparr>"
      "subseq new ts" "distinct (map Name new)"
      "set (map Name new) = {n \<in> Name ` set ts. n \<noteq> [] \<and> n \<notin> set (elems (Theatres ?m))}"
      "\<forall>e \<in> set new. find (\<lambda>t. Name t = Name e) ts = Some e" by blast
    have fresh: "Name t \<notin> set (map Name new)" unfolding n(5) by simp
    then have ne: "\<forall>e \<in> set new. Name t \<noteq> Name e" by auto
    have 1: "evs = acc @ (t # new)" using n(1) by simp
    have 2: "m' = m\<lparr>Theatres :=
        (if t # new = [] then Theatres m else Slice (elems (Theatres m) @ map Name (t # new)))\<rparr>"
      using n(2) by (simp add: append_slice_def)
    have 3: "subseq (t # new) (t # ts)" using n(3) by simp
    have 4: "distinct (map Name (t # new))" using n(4) fresh by simp
    have 5: "set (map Name (t # new)) =
        {n \<in> Name ` set (t # ts). n \<noteq> [] \<and> n \<notin> set (elems (Theatres m))}"
      using False n(5) by auto
    have 6: "\<forall>e \<in> set (t # new). find (\<lambda>x. Name x = Name e) (t # ts) = Some e"
      using n(6) ne by simp
    from 1 2 3 4 5 6 show ?thesis by blast
  qed
qed

lemma reconcile_char:
  assumes "reconcile m obs = (m', new)"
  shows "m' = m\<lparr>Theatres := Theatres m'\<rparr>"
    and "elems (Theatres m') = elems (Theatres m) @ map Name new"
    and "new = [] \<Longrightarrow> m' = m"
    and "subseq new obs" and "distinct (map Name new)"
    and "set (map Name new) = {n \<in> Name ` set obs. n \<noteq> [] \<and> n \<notin> set (elems (Theatres m))}"
    and "\<forall>e \<in> set new. find (\<lambda>t. Name t = Name e) obs = Some e"
  using reconcileLoop_acc[OF assms[unfolded reconcile_def]] by auto

lemma reconcile_Nil: "reconcile m [] = (m, [])"
  by (simp add: reconcile_def)

lemma sendLoop_messages:
  "map message (sendLoop send k m date ts) =
     map (\<lambda>t. \<lparr>msg_movie = MovieDetails_first.Name m, msg_date = date,
                 msg_theatre = Name t, msg_shows = ShowCount t,
                 button_url = bookingURL m\<rparr>) ts"
  by (induction ts arbitrary: k) auto

lemma notify_ok:
  assumes "formattedDate (Date m) = Inr date"
  shows "notify send m new = Inr (sendLoop send 0 m date new)"
  using assms by (cases new) (simp_all add: notify_def)

text \<open>
  C1, as the code has it. For a target whose date has at least 8 bytes, lines 160-208
  return normally with the target changed in \<^verbatim>\<open>Theatres\<close> only, which gains the
  names of \<open>newTheatres\<close> at its end, and with one \<^verbatim>\<open>sendTelegramNotification\<close>
  call per entry of \<open>newTheatres\<close>, in order, carrying that entry's name and show count.
  \<open>newTheatres\<close> is a subsequence of the observations (so in extraction order), holds
  each name once, holds exactly the names that are non-empty and were not in
  \<^verbatim>\<open>Theatres\<close>, and each entry is the first observation of its name. (On a shorter
  date the claim fails: see the counterexample.)
\<close>

theorem incremental_reconcile_and_notify:
  assumes "8 \<le> length (Date m)"
  shows "\<exists>m' sent newTheatres date.
     formattedDate (Date m) = Inr date \<and>
     reconcileAndNotify send m theatreDetails = Inr (m', sent) \<and>
     m' = m\<lparr>Theatres := Theatres m'\<rparr> \<and>
     elems (Theatres m') = elems (Theatres m) @ map Name newTheatres \<and>
     map message sent =
       map (\<lambda>t. \<lparr>msg_movie = MovieDetails_first.Name m, msg_date = date,
                   msg_theatre = Name t, msg_shows = ShowCount t,
                   button_url = bookingURL m\<rparr>) newTheatres \<and>
     subseq newTheatres theatreDetails \<and>
     distinct (map Name newTheatres) \<and>
     set (map Name newTheatres) =
       {n \<in> Name ` set theatreDetails. n \<noteq> [] \<and> n \<notin> set (elems (Theatres m))} \<and>
     (\<forall>e \<in> set newTheatres. find (\<lambda>t. Name t = Name e) theatreDetails = Some e)"
proof -
  obtain m' new where r: "reconcile m theatreDetails = (m', new)"
    by (cases "reconcile m theatreDetails")
  obtain date where d: "formattedDate (Date m) = Inr date"
    using formattedDate_long[OF assms] by blast
  note c = reconcile_char[OF r]
  have same: "Date m' = Date m" "MovieDetails_first.Name m' = MovieDetails_first.Name m"
    "bookingURL m' = bookingURL m"
    by (subst c(1), simp add: bookingURL_def)+
  have n: "reconcileAndNotify send m theatreDetails = Inr (m', sendLoop send 0 m' date new)"
    using r d same by (simp add: reconcileAndNotify_def notify_ok)
  have msgs: "map message (sendLoop send 0 m' date new) =
       map (\<lambda>t. \<lparr>msg_movie = MovieDetails_first.Name m, msg_date = date,
                   msg_theatre = Name t, msg_shows = ShowCount t,
                   button_url = bookingURL m\<rparr>) new"
    by (simp add: sendLoop_messages same)
  from d n c(1,2) msgs c(4,5,6,7) show ?thesis by blast
qed

text \<open>
  Scenario B of the specification, for the date 20250327: the target knows Theatre X,
  the page lists Theatre X with 5 shows and Theatre Y with 1. One notification is sent,
  for Theatre Y with count 1, and \<^verbatim>\<open>Theatres\<close> becomes Theatre X, Theatre Y.
\<close>

theorem incremental_reconcile_and_notify_witness:
  "8 \<le> length (Date (sample ''20250327'' (Slice [''Theatre X'']))) \<and>
   reconcileAndNotify (\<lambda>k. False) (sample ''20250327'' (Slice [''Theatre X'']))
     [\<lparr>Name = ''Theatre X'', ShowCount = 5\<rparr>, \<lparr>Name = ''Theatre Y'', ShowCount = 1\<rparr>] =
   Inr (sample ''20250327'' (Slice [''Theatre X'', ''Theatre Y'']),
        [\<lparr>message =
            \<lparr>msg_movie = ''Officer On Duty'', msg_date = ''27-03-2025'',
             msg_theatre = ''Theatre Y'', msg_shows = 1,
             button_url =
               ''https://in.bookmyshow.com/movies/kochi/officer-on-duty/buytickets/ET00431676/20250327''\<rparr>,
          delivered = False\<rparr>])"
proof -
  have long: "8 \<le> length (Date (sample ''20250327'' (Slice [''Theatre X''])))"
    by (simp add: sample_def)
  have run:
    "reconcileAndNotify (\<lambda>k. False) (sample ''20250327'' (Slice [''Theatre X'']))
       [\<lparr>Name = ''Theatre X'', ShowCount = 5\<rparr>, \<lparr>Name = ''Theatre Y'', ShowCount = 1\<rparr>] =
     Inr (sample ''20250327'' (Slice [''Theatre X'', ''Theatre Y'']),
        [\<lparr>message =
            \<lparr>msg_movie = ''Officer On Duty'', msg_date = ''27-03-2025'',
             msg_theatre = ''Theatre Y'', msg_shows = 1,
             button_url =
               ''https://in.bookmyshow.com/movies/kochi/officer-on-duty/buytickets/ET00431676/20250327''\<rparr>,
          delivered = False\<rparr>])"
    by (simp add: reconcileAndNotify_def reconcile_def Contains_def append_slice_def
        notify_def formattedDate_def slice_string_def bookingURL_def sample_def)
  show ?thesis
    using long run
      incremental_reconcile_and_notify[OF long, of "\<lambda>k. False"
        "[\<lparr>Name = ''Theatre X'', ShowCount = 5\<rparr>, \<lparr>Name = ''Theatre Y'', ShowCount = 1\<rparr>]"]
    by - (elim exE conjE, intro conjI, assumption+)
qed

text \<open>
  The claim as stated fails on a target whose date is shorter than 8 bytes: in
  Scenario B with the date 202503, Theatre Y is new, line 174 panics, and no
  notification is sent.
\<close>

theorem incremental_short_date_counterexample:
  "reconcileAndNotify (\<lambda>k. True) (sample ''202503'' (Slice [''Theatre X'']))
     [\<lparr>Name = ''Theatre X'', ShowCount = 5\<rparr>, \<lparr>Name = ''Theatre Y'', ShowCount = 1\<rparr>] =
   Inl SliceBoundsOutOfRange"
  by (simp add: reconcileAndNotify_def reconcile_def Contains_def append_slice_def
      notify_def formattedDate_def slice_string_def sample_def)

section \<open>An empty listing\<close>

text \<open>
  C7. With no observation, lines 160-208 of the incremental watcher and lines 426-467
  of the first-availability watcher return the target as it was and send nothing; so
  does the whole pass over a page whose container holds no theatre element.
\<close>

theorem empty_observations_change_nothing:
  "reconcileAndNotify send m [] = Inr (m, []) \<and>
   processMovie
     \<lparr>Connect = True, MustPage = True, MustNavigate = True, MustWaitDOMStable = True,
      Page_Element = Some (Container (Some [])), sendTelegramNotification = send\<rparr> m
     = Inr (m, []) \<and>
   foundBookings env m1 [] = Inr (m1, []) \<and>
   processMovie_first
     \<lparr>Connect = True, MustPage = True, MustNavigate = True, MustWaitDOMStable = True,
      Page_Element = Some (Container (Some [])), sendTelegramNotification = send,
      sendIFTTTVoipCall = call\<rparr> m1
     = Inr (m1, [])"
  by (simp add: reconcileAndNotify_def reconcile_Nil notify_def processMovie_def
      extractTheatres_def foundBookings_def processMovie_first_def)

text \<open>Scenario C of the specification: \<^verbatim>\<open>Found\<close> stays false and nothing is sent.\<close>

theorem empty_observations_change_nothing_witness:
  "foundBookings (rendered_first [] True True) (sample_first ''20250327'') ([] :: unit list) =
     Inr (sample_first ''20250327'', []) \<and>
   reconcileAndNotify (\<lambda>k. True) (sample ''20250327'' (Slice [''Theatre X''])) [] =
     Inr (sample ''20250327'' (Slice [''Theatre X'']), [])"
  using
    empty_observations_change_nothing
      [of "\<lambda>k. True" "sample ''20250327'' (Slice [''Theatre X''])"
          "rendered_first ([] :: unit list) True True" "sample_first ''20250327''" True]
  by - (elim conjE, intro conjI, assumption+)

section \<open>The first listing in the first-availability watcher\<close>

text \<open>
  C2, as the code has it. For a target with \<^verbatim>\<open>Found\<close> false and a date of at least
  8 bytes, a non-empty list of theatre elements makes lines 426-467 set \<^verbatim>\<open>Found\<close>
  and send one Telegram message, whose count is the number of the elements, followed by
  one call trigger; the pass over a page that renders with these elements returns the
  same. (On a shorter date the claim fails: see the counterexample.)
\<close>

theorem first_availability_alert:
  assumes "\<not> Found m" and "theatreElements \<noteq> []" and "8 \<le> length (Date m)"
  shows "\<exists>date sent.
     formattedDate (Date m) = Inr date \<and>
     sent =
       [\<lparr>alert = \<lparr>alert_movie = MovieDetails_first.Name m, alert_date = date,
                   alert_theatres = int (length theatreElements),
                   alert_city = City m, alert_url = bookingURL_first m\<rparr>,
         alert_delivered = sendTelegramNotification env 0,
         call_value1 = MovieDetails_first.Name m,
         call_delivered = sendIFTTTVoipCall env\<rparr>] \<and>
     foundBookings env m theatreElements = Inr (m\<lparr>Found := True\<rparr>, sent) \<and>
     processMovie_first
       (env\<lparr>Connect := True, MustPage := True, MustNavigate := True, MustWaitDOMStable := True,
            Page_Element := Some (Container (Some theatreElements))\<rparr>) m =
       Inr (m\<lparr>Found := True\<rparr>, sent)"
proof -
  obtain date where d: "formattedDate (Date m) = Inr date"
    using formattedDate_long[OF assms(3)] by blast
  let ?sent = "[\<lparr>alert = \<lparr>alert_movie = MovieDetails_first.Name m, alert_date = date,
                   alert_theatres = int (length theatreElements),
                   alert_city = City m, alert_url = bookingURL_first m\<rparr>,
         alert_delivered = sendTelegramNotification env 0,
         call_value1 = MovieDetails_first.Name m,
         call_delivered = sendIFTTTVoipCall env\<rparr>]"
  have f: "foundBookings env m theatreElements = Inr (m\<lparr>Found := True\<rparr>, ?sent)"
    using assms(2) d by (simp add: foundBookings_def bookingURL_first_def)
  have p: "processMovie_first
       (env\<lparr>Connect := True, MustPage := True, MustNavigate := True, MustWaitDOMStable := True,
            Page_Element := Some (Container (Some theatreElements))\<rparr>) m =
       Inr (m\<lparr>Found := True\<rparr>, ?sent)"
    using assms(1,2) d
    by (simp add: processMovie_first_def foundBookings_def bookingURL_first_def)
  from d f p show ?thesis by blast
qed

text \<open>
  Scenario D of the specification, for the date 20250327: four theatre elements, one
  message with count 4 (here its delivery fails), and \<^verbatim>\<open>Found\<close> becomes true.
\<close>

theorem first_availability_alert_witness:
  "\<not> Found (sample_first ''20250327'') \<and>
   [(), (), (), ()] \<noteq> [] \<and>
   8 \<le> length (Date (sample_first ''20250327'')) \<and>
   foundBookings (rendered_first [(), (), (), ()] False True) (sample_first ''20250327'')
     [(), (), (), ()] =
   Inr ((sample_first ''20250327'')\<lparr>Found := True\<rparr>,
     [\<lparr>alert =
         \<lparr>alert_movie = ''Officer On Duty'', alert_date = ''27-03-2025'', alert_theatres = 4,
          alert_city = ''kochi'',
          alert_url =
            ''https://in.bookmyshow.com/buytickets/officer-on-duty-kochi/movie-koch-ET00431676-MT/20250327''\<rparr>,
       alert_delivered = False, call_value1 = ''Officer On Duty'', call_delivered = True\<rparr>])"
proof -
  have unsettled: "\<not> Found (sample_first ''20250327'')"
    by (simp add: sample_first_def)
  have listed: "[(), (), (), ()] \<noteq> []"
    by simp
  have long: "8 \<le> length (Date (sample_first ''20250327''))"
    by (simp add: sample_first_def)
  have run:
    "foundBookings (rendered_first [(), (), (), ()] False True) (sample_first ''20250327'')
       [(), (), (), ()] =
     Inr ((sample_first ''20250327'')\<lparr>Found := True\<rparr>,
       [\<lparr>alert =
           \<lparr>alert_movie = ''Officer On Duty'', alert_date = ''27-03-2025'', alert_theatres = 4,
            alert_city = ''kochi'',
            alert_url =
              ''https://in.bookmyshow.com/buytickets/officer-on-duty-kochi/movie-koch-ET00431676-MT/20250327''\<rparr>,
         alert_delivered = False, call_value1 = ''Officer On Duty'', call_delivered = True\<rparr>])"
    by (simp add: foundBookings_def rendered_first_def sample_first_def formattedDate_def
        slice_string_def bookingURL_first_def)
  show ?thesis
    using unsettled listed long run
      first_availability_alert[OF unsettled listed long,
        of "rendered_first [(), (), (), ()] False True"]
    by - (elim exE conjE, intro conjI, assumption+)
qed

text \<open>
  The claim as stated fails on a target whose date is shorter than 8 bytes: four
  theatre elements are listed, line 429 panics, no message is sent, and the run ends
  without saving, so \<^verbatim>\<open>Found\<close> is still false in the state file.
\<close>

theorem first_availability_short_date_counterexample:
  "\<not> Found (sample_first ''202503'') \<and>
   processMovie_first (rendered_first [(), (), (), ()] True True) (sample_first ''202503'') =
     Inl (Panicked SliceBoundsOutOfRange)"
  by (simp add: processMovie_first_def foundBookings_def rendered_first_def sample_first_def
      formattedDate_def slice_string_def)

section \<open>Extraction\<close>

lemma extractLoop_nil_name:
  "theatreEl \<in> set theatreElements \<Longrightarrow> Element_name theatreEl = None \<Longrightarrow>
   extractLoop acc theatreElements = Inl NilPointerDereference"
proof (induction theatreElements arbitrary: acc)
  case Nil
  then show ?case by simp
next
  case (Cons e es)
  show ?case
  proof (cases "Element_name e")
    case None
    then show ?thesis by (simp add: Text_of_def)
  next
    case (Some el)
    with Cons.prems have "theatreEl \<in> set es" by auto
    from Cons.IH[OF this Cons.prems(2)] Some show ?thesis
      by (simp add: Text_of_def)
  qed
qed

text \<open>
  C10. When the name lookup of some theatre element fails, \<^verbatim>\<open>Text()\<close> is called
  on the nil pointer the lookup returned: extraction does not return a list (neither
  without the item nor with an empty name for it) but panics, and so does the pass over
  a page that renders with these elements.
\<close>

theorem nil_name_element_panics:
  assumes "theatreEl \<in> set theatreElements" and "Element_name theatreEl = None"
  shows "extractTheatres theatreElements = Inl NilPointerDereference \<and>
    (\<not> Found m \<longrightarrow>
       processMovie
         (env\<lparr>Connect := True, MustPage := True, MustNavigate := True,
              MustWaitDOMStable := True,
              Page_Element := Some (Container (Some theatreElements))\<rparr>) m =
       Inl (Panicked NilPointerDereference))"
proof -
  have "theatreElements \<noteq> []" using assms(1) by auto
  then have "extractTheatres theatreElements = Inl NilPointerDereference"
    using extractLoop_nil_name[OF assms] by (simp add: extractTheatres_def)
  then show ?thesis by (simp add: processMovie_def)
qed

theorem nil_name_element_panics_witness:
  "\<lparr>Element_name = None, Elements_shows = Some []\<rparr> \<in>
     set [theatre_element ''Theatre X'' 3, \<lparr>Element_name = None, Elements_shows = Some []\<rparr>] \<and>
   Element_name \<lparr>Element_name = None, Elements_shows = Some []\<rparr> = None \<and>
   extractTheatres
     [theatre_element ''Theatre X'' 3, \<lparr>Element_name = None, Elements_shows = Some []\<rparr>] =
     Inl NilPointerDereference \<and>
   processMovie
     (rendered [theatre_element ''Theatre X'' 3, \<lparr>Element_name = None, Elements_shows = Some []\<rparr>]
        (\<lambda>k. True))
     (sample ''20250327'' NilSlice) = Inl (Panicked NilPointerDereference)"
proof -
  let ?nameless = "\<lparr>Element_name = None, Elements_shows = Some []\<rparr>"
  let ?els = "[theatre_element ''Theatre X'' 3, ?nameless]"
  have listed: "?nameless \<in> set ?els"
    by simp
  have nameless: "Element_name ?nameless = None"
    by simp
  have unsettled: "\<not> Found (sample ''20250327'' NilSlice)"
    by (simp add: sample_def)
  have env: "(rendered ?els (\<lambda>k. True))
      \<lparr>Connect := True, MustPage := True, MustNavigate := True, MustWaitDOMStable := True,
       Page_Element := Some (Container (Some ?els))\<rparr> = rendered ?els (\<lambda>k. True)"
    by (simp add: rendered_def)
  show ?thesis
    using listed nameless unsettled
      nil_name_element_panics[OF listed nameless, of "sample ''20250327'' NilSlice"
        "rendered ?els (\<lambda>k. True)"]
    unfolding env by blast
qed

text \<open>
  When every name lookup succeeds, extraction returns one observation per element, in
  order, whose name is the text of the name element as the page gave it (empty when
  \<^verbatim>\<open>Text()\<close> failed) and whose count is the number of show elements (0 when that
  lookup failed).
\<close>

lemma extractLoop_ok:
  "extractLoop acc els = Inr obs \<Longrightarrow>
   \<exists>new. obs = acc @ new \<and>
     list_all2 (\<lambda>el t. \<exists>e. Element_name el = Some e \<and>
        Name t = (case Text e of None \<Rightarrow> [] | Some s \<Rightarrow> s) \<and>
        ShowCount t = int (length (case Elements_shows el of None \<Rightarrow> [] | Some es \<Rightarrow> es))) els new"
proof (induction els arbitrary: acc obs)
  case Nil
  then show ?case by simp
next
  case (Cons e es)
  from Cons.prems obtain el where el: "Element_name e = Some el"
    by (cases "Element_name e") (auto simp: Text_of_def)
  let ?t = "\<lparr>Name = (case Text el of None \<Rightarrow> [] | Some s \<Rightarrow> s),
            ShowCount = int (length (case Elements_shows e of None \<Rightarrow> [] | Some es \<Rightarrow> es))\<rparr>"
  from Cons.prems el have "extractLoop (acc @ [?t]) es = Inr obs"
    by (simp add: Text_of_def)
  from Cons.IH[OF this] obtain new where
    n: "obs = (acc @ [?t]) @ new"
    "list_all2 (\<lambda>el t. \<exists>e. Element_name el = Some e \<and>
        Name t = (case Text e of None \<Rightarrow> [] | Some s \<Rightarrow> s) \<and>
        ShowCount t = int (length (case Elements_shows el of None \<Rightarrow> [] | Some es \<Rightarrow> es))) es new"
    by blast
  have "obs = acc @ (?t # new)" using n(1) by simp
  moreover have "list_all2 (\<lambda>el t. \<exists>e. Element_name el = Some e \<and>
        Name t = (case Text e of None \<Rightarrow> [] | Some s \<Rightarrow> s) \<and>
        ShowCount t = int (length (case Elements_shows el of None \<Rightarrow> [] | Some es \<Rightarrow> es))) (e # es) (?t # new)"
    using n(2) el by simp
  ultimately show ?case by blast
qed

text \<open>
  C3, as the code has it. The name of an observation is the text of the name element,
  unchanged: nothing trims it. Reconciliation adds to \<^verbatim>\<open>Theatres\<close> every observed
  name but the empty string, and notifies every such name that was not a member; so
  an item is discarded exactly when its name is the empty string.
\<close>

theorem names_kept_unless_empty:
  assumes "extractTheatres theatreElements = Inr theatreDetails"
    and "reconcile m theatreDetails = (m', newTheatres)"
  shows "list_all2 (\<lambda>el t. \<exists>e. Element_name el = Some e \<and>
        Name t = (case Text e of None \<Rightarrow> [] | Some s \<Rightarrow> s) \<and>
        ShowCount t = int (length (case Elements_shows el of None \<Rightarrow> [] | Some es \<Rightarrow> es)))
      theatreElements theatreDetails \<and>
    set (elems (Theatres m')) =
      set (elems (Theatres m)) \<union> {n \<in> Name ` set theatreDetails. n \<noteq> []} \<and>
    Name ` set newTheatres =
      {n \<in> Name ` set theatreDetails. n \<noteq> [] \<and> n \<notin> set (elems (Theatres m))}"
proof -
  have 1: "list_all2 (\<lambda>el t. \<exists>e. Element_name el = Some e \<and>
        Name t = (case Text e of None \<Rightarrow> [] | Some s \<Rightarrow> s) \<and>
        ShowCount t = int (length (case Elements_shows el of None \<Rightarrow> [] | Some es \<Rightarrow> es)))
      theatreElements theatreDetails"
  proof (cases theatreElements)
    case Nil
    with assms(1) show ?thesis by (simp add: extractTheatres_def)
  next
    case (Cons e es)
    with assms(1) have "extractLoop [] theatreElements = Inr theatreDetails"
      by (simp add: extractTheatres_def)
    from extractLoop_ok[OF this] show ?thesis by simp
  qed
  note c = reconcile_char[OF assms(2)]
  have 3: "Name ` set newTheatres =
      {n \<in> Name ` set theatreDetails. n \<noteq> [] \<and> n \<notin> set (elems (Theatres m))}"
    using c(6) by simp
  have 2: "set (elems (Theatres m')) =
      set (elems (Theatres m)) \<union> {n \<in> Name ` set theatreDetails. n \<noteq> []}"
    unfolding c(2) using 3 by auto
  from 1 2 3 show ?thesis by blast
qed

theorem names_kept_unless_empty_witness:
  "extractTheatres
     [theatre_element ''Theatre X'' 3, \<lparr>Element_name = Some (Element None), Elements_shows = None\<rparr>] =
     Inr [\<lparr>Name = ''Theatre X'', ShowCount = 3\<rparr>, \<lparr>Name = [], ShowCount = 0\<rparr>] \<and>
   reconcile (sample ''20250327'' NilSlice)
     [\<lparr>Name = ''Theatre X'', ShowCount = 3\<rparr>, \<lparr>Name = [], ShowCount = 0\<rparr>] =
     (sample ''20250327'' (Slice [''Theatre X'']), [\<lparr>Name = ''Theatre X'', ShowCount = 3\<rparr>]) \<and>
   Name ` set [\<lparr>Name = ''Theatre X'', ShowCount = 3\<rparr>] =
     {n \<in> Name ` set [\<lparr>Name = ''Theatre X'', ShowCount = 3\<rparr>, \<lparr>Name = [], ShowCount = 0\<rparr>].
        n \<noteq> [] \<and> n \<notin> set (elems (Theatres (sample ''20250327'' NilSlice)))}"
proof -
  have extracted: "extractTheatres
     [theatre_element ''Theatre X'' 3, \<lparr>Element_name = Some (Element None), Elements_shows = None\<rparr>] =
     Inr [\<lparr>Name = ''Theatre X'', ShowCount = 3\<rparr>, \<lparr>Name = [], ShowCount = 0\<rparr>]"
    by (simp add: extractTheatres_def theatre_element_def Text_of_def)
  have reconciled: "reconcile (sample ''20250327'' NilSlice)
     [\<lparr>Name = ''Theatre X'', ShowCount = 3\<rparr>, \<lparr>Name = [], ShowCount = 0\<rparr>] =
     (sample ''20250327'' (Slice [''Theatre X'']), [\<lparr>Name = ''Theatre X'', ShowCount = 3\<rparr>])"
    by (simp add: reconcile_def Contains_def append_slice_def sample_def)
  show ?thesis
    using extracted reconciled names_kept_unless_empty[OF extracted reconciled]
    by - (elim conjE, intro conjI, assumption+)
qed

text \<open>
  The claim as stated fails on a name of white space only. The page lists one theatre
  whose name is a single space, with two shows: trimmed as the specification says, the
  name is empty, yet the pass adds it to \<^verbatim>\<open>Theatres\<close> and sends a notification
  for it.
\<close>

theorem whitespace_name_counterexample:
  "spec_trimmed '' '' = [] \<and>
   processMovie (rendered [theatre_element '' '' 2] (\<lambda>k. True)) (sample ''20250327'' NilSlice) =
     Inr (sample ''20250327'' (Slice ['' '']),
       [\<lparr>message = \<lparr>msg_movie = ''Officer On Duty'', msg_date = ''27-03-2025'',
             msg_theatre = '' '', msg_shows = 2,
             button_url =
               ''https://in.bookmyshow.com/movies/kochi/officer-on-duty/buytickets/ET00431676/20250327''\<rparr>,
          delivered = True\<rparr>])"
  by (simp add: spec_trimmed_def isSpace_def processMovie_def rendered_def theatre_element_def
      extractTheatres_def Text_of_def reconcileAndNotify_def reconcile_def Contains_def
      append_slice_def notify_def formattedDate_def slice_string_def bookingURL_def sample_def)


section \<open>One pass and the loop, for any answers of the notifier\<close>

lemma notify_cases:
  "notify send m new =
    (if new = [] then Inr []
     else case formattedDate (Date m) of
       Inl p \<Rightarrow> Inl p
     | Inr date \<Rightarrow> Inr (sendLoop send 0 m date new))"
  by (simp add: notify_def)

lemma reconcileAndNotify_Inr:
  assumes "reconcileAndNotify send m obs = Inr (m', sent)"
  shows "\<exists>new. reconcile m obs = (m', new) \<and> map (\<lambda>s. msg_theatre (message s)) sent = map Name new"
proof -
  obtain m'' new where r: "reconcile m obs = (m'', new)"
    by (cases "reconcile m obs")
  with assms have n: "notify send m'' new = Inr sent" and m: "m'' = m'"
    by (auto simp: reconcileAndNotify_def split: sum.splits)
  have "map message sent = [] \<or> (\<exists>date. map message sent = map message (sendLoop send 0 m'' date new))"
    using n by (auto simp: notify_cases split: if_splits sum.splits)
  then have "map (\<lambda>s. msg_theatre (message s)) sent = map Name new"
  proof
    assume "map message sent = []"
    then have "sent = []" by simp
    moreover have "new = []" using n \<open>sent = []\<close>
      by (cases new) (auto simp: notify_cases split: sum.splits)
    ultimately show ?thesis by simp
  next
    assume "\<exists>date. map message sent = map message (sendLoop send 0 m'' date new)"
    then obtain date where "map message sent = map message (sendLoop send 0 m'' date new)" by blast
    then have "map msg_theatre (map message sent) = map Name new"
      by (simp add: sendLoop_messages comp_def)
    then show ?thesis by (simp add: comp_def)
  qed
  with r m show ?thesis by blast
qed

lemma reconcileAndNotify_other_send:
  "reconcileAndNotify send m obs = Inr (m', sent) \<Longrightarrow>
     \<exists>sent'. reconcileAndNotify d m obs = Inr (m', sent') \<and> map message sent' = map message sent"
  "reconcileAndNotify send m obs = Inl p \<Longrightarrow> reconcileAndNotify d m obs = Inl p"
  by (auto simp: reconcileAndNotify_def notify_cases sendLoop_messages
      split: prod.splits if_splits sum.splits)

lemma processMovie_Inr:
  assumes "processMovie env m = Inr (m', sent)"
  shows "(m' = m \<and> sent = []) \<or>
    (\<exists>obs. reconcileAndNotify (sendTelegramNotification env) m obs = Inr (m', sent))"
  using assms
  by (auto simp: processMovie_def split: if_splits option.splits sum.splits)

lemma processMovie_grows:
  assumes "processMovie env m = Inr (m', sent)"
  shows "m' = m\<lparr>Theatres := Theatres m'\<rparr>"
    and "prefix (elems (Theatres m)) (elems (Theatres m'))"
    and "\<forall>s \<in> set sent. msg_theatre (message s) \<in> set (elems (Theatres m')) \<and>
           msg_theatre (message s) \<notin> set (elems (Theatres m))"
proof -
  from processMovie_Inr[OF assms] consider
    (same) "m' = m" "sent = []"
    | (new) obs where "reconcileAndNotify (sendTelegramNotification env) m obs = Inr (m', sent)"
    by blast
  then have "m' = m\<lparr>Theatres := Theatres m'\<rparr> \<and>
    prefix (elems (Theatres m)) (elems (Theatres m')) \<and>
    (\<forall>s \<in> set sent. msg_theatre (message s) \<in> set (elems (Theatres m')) \<and>
           msg_theatre (message s) \<notin> set (elems (Theatres m)))"
  proof cases
    case same
    then show ?thesis by simp
  next
    case new
    from reconcileAndNotify_Inr[OF new] obtain nt where
      r: "reconcile m obs = (m', nt)" and
      s: "map (\<lambda>s. msg_theatre (message s)) sent = map Name nt" by blast
    note c = reconcile_char[OF r]
    have "(\<lambda>s. msg_theatre (message s)) ` set sent = set (map Name nt)"
      using s by (metis set_map)
    then have names: "\<forall>s \<in> set sent. msg_theatre (message s) \<in> set (map Name nt)"
      by blast
    have old: "\<forall>n \<in> set (map Name nt). n \<notin> set (elems (Theatres m))"
      using c(6) by blast
    have "\<forall>n \<in> set (map Name nt). n \<in> set (elems (Theatres m'))"
      unfolding c(2) by simp
    with old names have 3: "\<forall>s \<in> set sent. msg_theatre (message s) \<in> set (elems (Theatres m')) \<and>
           msg_theatre (message s) \<notin> set (elems (Theatres m))" by blast
    have 2: "prefix (elems (Theatres m)) (elems (Theatres m'))"
      unfolding c(2) by simp
    from c(1) 2 3 show ?thesis by blast
  qed
  then show "m' = m\<lparr>Theatres := Theatres m'\<rparr>"
    and "prefix (elems (Theatres m)) (elems (Theatres m'))"
    and "\<forall>s \<in> set sent. msg_theatre (message s) \<in> set (elems (Theatres m')) \<and>
           msg_theatre (message s) \<notin> set (elems (Theatres m))"
    by blast+
qed

lemma processMovies_nth:
  "processMovies envs i ms = Inr (ms', sent) \<Longrightarrow>
   length ms' = length ms \<and>
   (\<forall>j < length ms. \<exists>s. processMovie (envs (i + j)) (ms ! j) = Inr (ms' ! j, s))"
proof (induction ms arbitrary: i ms' sent)
  case Nil
  then show ?case by simp
next
  case (Cons m rest)
  from Cons.prems obtain m' s rest' s' where
    p: "processMovie (envs i) m = Inr (m', s)" and
    r: "processMovies envs (Suc i) rest = Inr (rest', s')" and
    e: "ms' = m' # rest'"
    by (auto split: sum.splits prod.splits)
  from Cons.IH[OF r] have len: "length rest' = length rest"
    and nth: "\<forall>j < length rest. \<exists>s. processMovie (envs (Suc i + j)) (rest ! j) = Inr (rest' ! j, s)"
    by blast+
  have "\<forall>j < length (m # rest). \<exists>s. processMovie (envs (i + j)) ((m # rest) ! j) = Inr (ms' ! j, s)"
  proof (intro allI impI)
    fix j assume j: "j < length (m # rest)"
    show "\<exists>s. processMovie (envs (i + j)) ((m # rest) ! j) = Inr (ms' ! j, s)"
    proof (cases j)
      case 0
      with p e show ?thesis by auto
    next
      case (Suc k)
      with j nth e show ?thesis by auto
    qed
  qed
  with len e show ?case by simp
qed

lemma extractLoop_total:
  "list_all (\<lambda>el. Element_name el \<noteq> None) els \<Longrightarrow> \<exists>obs. extractLoop acc els = Inr obs"
proof (induction els arbitrary: acc)
  case Nil
  then show ?case by simp
next
  case (Cons e es)
  then obtain el where "Element_name e = Some el" by auto
  with Cons show ?case by (simp add: Text_of_def)
qed

lemma extractTheatres_total:
  "list_all (\<lambda>el. Element_name el \<noteq> None) els \<Longrightarrow> \<exists>obs. extractTheatres els = Inr obs"
  using extractLoop_total[of els "[]"] by (simp add: extractTheatres_def)

lemma reconcileAndNotify_total:
  assumes "8 \<le> length (Date m)"
  shows "\<exists>m' sent. reconcileAndNotify send m obs = Inr (m', sent)"
proof -
  obtain m' new where r: "reconcile m obs = (m', new)"
    by (cases "reconcile m obs")
  have "Date m' = Date m"
    by (subst reconcile_char(1)[OF r]) simp
  with assms obtain date where "formattedDate (Date m') = Inr date"
    using formattedDate_long[of "Date m'"] by auto
  with r show ?thesis
    by (simp add: reconcileAndNotify_def notify_ok)
qed

lemma processMovie_total:
  assumes "\<not> Found m \<longrightarrow> page_opens env \<and>
     (container_missing env \<or> names_found env \<and> 8 \<le> length (Date m))"
  shows "\<exists>m' sent. processMovie env m = Inr (m', sent)"
proof (cases "Found m")
  case True
  then show ?thesis by (simp add: processMovie_def)
next
  case False
  with assms have o: "page_opens env"
    and n: "container_missing env \<or> names_found env \<and> 8 \<le> length (Date m)"
    by blast+
  show ?thesis
  proof (cases "Page_Element env")
    case None
    with o show ?thesis by (simp add: processMovie_def page_opens_def)
  next
    case (Some c)
    show ?thesis
    proof (cases "Elements c")
      case None
      with Some o show ?thesis by (simp add: processMovie_def page_opens_def)
    next
      case (Some els)
      with \<open>Page_Element env = Some c\<close> n have nf: "names_found env" and d: "8 \<le> length (Date m)"
        by (auto simp: container_missing_def)
      from nf Some \<open>Page_Element env = Some c\<close> have "list_all (\<lambda>el. Element_name el \<noteq> None) els"
        by (simp add: names_found_def)
      from extractTheatres_total[OF this] obtain obs where e: "extractTheatres els = Inr obs"
        by blast
      from reconcileAndNotify_total[OF d] obtain m' sent where
        "reconcileAndNotify (sendTelegramNotification env) m obs = Inr (m', sent)" by blast
      with e Some \<open>Page_Element env = Some c\<close> o False show ?thesis
        by (simp add: processMovie_def page_opens_def)
    qed
  qed
qed

lemma processMovies_total:
  "\<forall>j < length ms. \<not> Found (ms ! j) \<longrightarrow>
      page_opens (envs (i + j)) \<and>
      (container_missing (envs (i + j)) \<or>
       names_found (envs (i + j)) \<and> 8 \<le> length (Date (ms ! j))) \<Longrightarrow>
   \<exists>ms' sent. processMovies envs i ms = Inr (ms', sent)"
proof (induction ms arbitrary: i)
  case Nil
  then show ?case by simp
next
  case (Cons m rest)
  from Cons.prems[rule_format, of 0] have
    "\<not> Found m \<longrightarrow> page_opens (envs i) \<and>
       (container_missing (envs i) \<or> names_found (envs i) \<and> 8 \<le> length (Date m))"
    by simp
  from processMovie_total[OF this] obtain m' s where p: "processMovie (envs i) m = Inr (m', s)"
    by blast
  have "\<forall>j < length rest. \<not> Found (rest ! j) \<longrightarrow>
      page_opens (envs (Suc i + j)) \<and>
      (container_missing (envs (Suc i + j)) \<or>
       names_found (envs (Suc i + j)) \<and> 8 \<le> length (Date (rest ! j)))"
  proof (intro allI impI)
    fix j assume "j < length rest" "\<not> Found (rest ! j)"
    with Cons.prems[rule_format, of "Suc j"] show
      "page_opens (envs (Suc i + j)) \<and>
       (container_missing (envs (Suc i + j)) \<or>
        names_found (envs (Suc i + j)) \<and> 8 \<le> length (Date (rest ! j)))"
      by simp
  qed
  from Cons.IH[OF this] obtain rest' s' where "processMovies envs (Suc i) rest = Inr (rest', s')"
    by blast
  with p show ?case by simp
qed

lemma processMovie_unchanged:
  "Found m \<or> container_missing env \<Longrightarrow> processMovie env m = Inr (m', sent) \<Longrightarrow>
     m' = m \<and> sent = []"
  by (auto simp: container_missing_def processMovie_def split: if_splits option.splits)

lemma processMovie_page_fails:
  assumes "\<not> Found m"
  shows "\<not> Connect env \<Longrightarrow> processMovie env m = Inl FatalExit"
    and "Connect env \<Longrightarrow> \<not> (MustPage env \<and> MustNavigate env \<and> MustWaitDOMStable env) \<Longrightarrow>
       processMovie env m = Inl (Panicked MustFailed)"
  using assms by (auto simp: processMovie_def)

lemma processMovies_first_failure:
  "j < length ms \<Longrightarrow>
   \<forall>i < j. \<exists>r. processMovie (envs (k + i)) (ms ! i) = Inr r \<Longrightarrow>
   processMovie (envs (k + j)) (ms ! j) = Inl a \<Longrightarrow>
   processMovies envs k ms = Inl a"
proof (induction ms arbitrary: j k)
  case Nil
  then show ?case by simp
next
  case (Cons m rest)
  show ?case
  proof (cases j)
    case 0
    with Cons.prems(3) show ?thesis by simp
  next
    case (Suc j')
    from Cons.prems(2)[rule_format, of 0] Suc obtain r where
      r: "processMovie (envs k) m = Inr r" by auto
    have before: "\<forall>i < j'. \<exists>r. processMovie (envs (Suc k + i)) (rest ! i) = Inr r"
    proof (intro allI impI)
      fix i assume "i < j'"
      with Cons.prems(2)[rule_format, of "Suc i"] Suc
      show "\<exists>r. processMovie (envs (Suc k + i)) (rest ! i) = Inr r" by simp
    qed
    from Cons.prems(1) Suc have len: "j' < length rest" by simp
    from Cons.prems(3) Suc have "processMovie (envs (Suc k + j')) (rest ! j') = Inl a"
      by simp
    from Cons.IH[OF len before this] have "processMovies envs (Suc k) rest = Inl a" .
    with r show ?thesis by (cases r) simp
  qed
qed

lemma processMovie_send_cases:
  "(\<exists>r. \<forall>d. processMovie (env\<lparr>sendTelegramNotification := d\<rparr>) m = r) \<or>
   (\<exists>obs. \<forall>d. processMovie (env\<lparr>sendTelegramNotification := d\<rparr>) m =
      map_sum Panicked id (reconcileAndNotify d m obs))"
proof (cases "Found m \<or> \<not> Connect env \<or> \<not> MustPage env \<or> \<not> MustNavigate env \<or>
    \<not> MustWaitDOMStable env")
  case True
  then have "\<forall>d. processMovie (env\<lparr>sendTelegramNotification := d\<rparr>) m = processMovie env m"
    by (auto simp: processMovie_def)
  then show ?thesis by blast
next
  case False
  show ?thesis
  proof (cases "Page_Element env")
    case None
    with False have "\<forall>d. processMovie (env\<lparr>sendTelegramNotification := d\<rparr>) m = Inr (m, [])"
      by (simp add: processMovie_def)
    then show ?thesis by blast
  next
    case (Some c)
    show ?thesis
    proof (cases "Elements c")
      case None
      with Some False have
        "\<forall>d. processMovie (env\<lparr>sendTelegramNotification := d\<rparr>) m = Inr (m, [])"
        by (simp add: processMovie_def)
      then show ?thesis by blast
    next
      case els: (Some els)
      show ?thesis
      proof (cases "extractTheatres els")
        case (Inl p)
        with els Some False have
          "\<forall>d. processMovie (env\<lparr>sendTelegramNotification := d\<rparr>) m = Inl (Panicked p)"
          by (simp add: processMovie_def)
        then show ?thesis by blast
      next
        case (Inr obs)
        with els Some False have
          "\<forall>d. processMovie (env\<lparr>sendTelegramNotification := d\<rparr>) m =
             map_sum Panicked id (reconcileAndNotify d m obs)"
          by (simp add: processMovie_def split: sum.splits)
        then show ?thesis by blast
      qed
    qed
  qed
qed

lemma processMovie_other_send:
  assumes "processMovie env m = Inr (m', sent)"
  shows "\<exists>sent'. processMovie (env\<lparr>sendTelegramNotification := d\<rparr>) m = Inr (m', sent') \<and>
       map message sent' = map message sent"
proof -
  have same: "env\<lparr>sendTelegramNotification := sendTelegramNotification env\<rparr> = env"
    by simp
  from processMovie_send_cases[of env m] show ?thesis
  proof
    assume "\<exists>r. \<forall>d. processMovie (env\<lparr>sendTelegramNotification := d\<rparr>) m = r"
    then obtain r where r: "\<And>d. processMovie (env\<lparr>sendTelegramNotification := d\<rparr>) m = r"
      by blast
    from r[of "sendTelegramNotification env"] assms have "r = Inr (m', sent)"
      by (simp only: same)
    with r[of d] show ?thesis by simp
  next
    assume "\<exists>obs. \<forall>d. processMovie (env\<lparr>sendTelegramNotification := d\<rparr>) m =
      map_sum Panicked id (reconcileAndNotify d m obs)"
    then obtain obs where r: "\<And>d. processMovie (env\<lparr>sendTelegramNotification := d\<rparr>) m =
      map_sum Panicked id (reconcileAndNotify d m obs)"
      by blast
    from r[of "sendTelegramNotification env"] assms have
      "map_sum Panicked id (reconcileAndNotify (sendTelegramNotification env) m obs) =
        Inr (m', sent)"
      by (simp only: same)
    then have "reconcileAndNotify (sendTelegramNotification env) m obs = Inr (m', sent)"
      by (cases "reconcileAndNotify (sendTelegramNotification env) m obs") simp_all
    from reconcileAndNotify_other_send(1)[OF this, of d] obtain sent' where
      "reconcileAndNotify d m obs = Inr (m', sent')" "map message sent' = map message sent"
      by blast
    with r[of d] show ?thesis by simp
  qed
qed

lemma processMovies_other_send:
  "processMovies envs i ms = Inr (ms', sent) \<Longrightarrow>
     \<exists>sent'. processMovies (\<lambda>j. (envs j)\<lparr>sendTelegramNotification := d j\<rparr>) i ms = Inr (ms', sent') \<and>
       map message sent' = map message sent"
proof (induction ms arbitrary: i ms' sent)
  case Nil
  then show ?case by simp
next
  case (Cons m rest)
  from Cons.prems obtain m' s rest' s' where
    p: "processMovie (envs i) m = Inr (m', s)" and
    r: "processMovies envs (Suc i) rest = Inr (rest', s')" and
    e: "ms' = m' # rest'" "sent = s @ s'"
    by (auto split: sum.splits prod.splits)
  from processMovie_other_send[OF p, of "d i"] obtain t where
    t: "processMovie ((envs i)\<lparr>sendTelegramNotification := d i\<rparr>) m = Inr (m', t)"
       "map message t = map message s" by blast
  from Cons.IH[OF r] obtain t' where
    t': "processMovies (\<lambda>j. (envs j)\<lparr>sendTelegramNotification := d j\<rparr>) (Suc i) rest = Inr (rest', t')"
       "map message t' = map message s'" by blast
  from t t' e show ?case by simp
qed

section \<open>The state file\<close>

lemma fieldFor_tags:
  "fieldFor ''name'' = Some ''name''"
  "fieldFor ''slug_name'' = Some ''slug_name''"
  "fieldFor ''code'' = Some ''code''"
  "fieldFor ''city'' = Some ''city''"
  "fieldFor ''city_code'' = Some ''city_code''"
  "fieldFor ''date'' = Some ''date''"
  "fieldFor ''found'' = Some ''found''"
  "fieldFor ''theatres'' = Some ''theatres''"
  by (simp_all add: fieldFor_def fieldTags_def)

lemma unmarshal_elements_JString: "unmarshal_elements cur (map JString ts) = Some ts"
  by (induction ts arbitrary: cur) auto

lemma unmarshal_strings_JString:
  "unmarshal_strings [] (JArray (map JString ts)) = Some (Slice ts, [])"
  by (simp add: unmarshal_elements_JString)

lemma unmarshal_marshal_MovieDetails:
  "unmarshal_MovieDetails (marshal_MovieDetails m) = Some m"
  by (cases m; cases "Theatres m")
    (simp_all add: marshal_MovieDetails_def fieldFor_tags setField_def zeroMovieDetails_def
      unmarshal_strings_JString del: unmarshal_strings.simps(2))

lemma unmarshal_list_marshal: "unmarshal_list (map marshal_MovieDetails ms) = Some ms"
  by (induction ms) (simp_all add: unmarshal_marshal_MovieDetails)

lemma load_saved: "loadMoviesFromJSON (Document (saveMoviesToJSON sl)) = Inr sl"
  by (cases sl)
    (simp_all add: loadMoviesFromJSON_def saveMoviesToJSON_def MarshalIndent_def
      unmarshal_list_marshal)

lemma unmarshal_sample_object:
  "unmarshal_MovieDetails (sample_object date) = Some (sample date NilSlice)"
  by (simp add: sample_object_def fieldFor_tags setField_def zeroMovieDetails_def sample_def)

lemma spec_strings: "list_all spec_string vs \<Longrightarrow> \<exists>ts. vs = map JString ts"
proof (induction vs)
  case Nil
  then show ?case by simp
next
  case (Cons v vs)
  then obtain ts where "vs = map JString ts" by auto
  moreover from Cons.prems obtain s where "v = JString s" by (cases v) auto
  ultimately have "v # vs = map JString (s # ts)" by simp
  then show ?case by (rule exI)
qed

lemma field_of_marshal:
  "field_of (marshal_MovieDetails m) ''name'' = Some (JString (MovieDetails_first.Name m))"
  "field_of (marshal_MovieDetails m) ''slug_name'' = Some (JString (SlugName m))"
  "field_of (marshal_MovieDetails m) ''code'' = Some (JString (Code m))"
  "field_of (marshal_MovieDetails m) ''city'' = Some (JString (City m))"
  "field_of (marshal_MovieDetails m) ''city_code'' = Some (JString (CityCode m))"
  "field_of (marshal_MovieDetails m) ''date'' = Some (JString (Date m))"
  "field_of (marshal_MovieDetails m) ''found'' = Some (JBool (Found m))"
  "field_of (marshal_MovieDetails m) ''theatres'' =
     Some (case Theatres m of NilSlice \<Rightarrow> JNull | Slice ts \<Rightarrow> JArray (map JString ts))"
  by (simp_all add: marshal_MovieDetails_def)

lemma setField_spec:
  assumes "field \<in> set fieldTags" and "spec_value field v"
  shows "\<exists>m' spare'. setField field v (m, spare) = Some (m', spare') \<and>
     field_of (marshal_MovieDetails m') field = Some v \<and>
     (\<forall>other. other \<noteq> field \<longrightarrow>
        field_of (marshal_MovieDetails m') other = field_of (marshal_MovieDetails m) other)"
proof -
  from assms(1) have "field = ''name'' \<or> field = ''slug_name'' \<or> field = ''code'' \<or>
    field = ''city'' \<or> field = ''city_code'' \<or> field = ''date'' \<or> field = ''found'' \<or>
    field = ''theatres''"
    unfolding fieldTags_def by (simp only: list.set insert_iff empty_iff simp_thms)
  then consider "field = ''name''" | "field = ''slug_name''" | "field = ''code''"
    | "field = ''city''" | "field = ''city_code''" | "field = ''date''" | "field = ''found''"
    | "field = ''theatres''"
    by (elim disjE) assumption+
  then show ?thesis
  proof cases
    case 1
    with assms(2) obtain s where "v = JString s" by (cases v) (auto simp: spec_value_def)
    with 1 show ?thesis
      by (auto simp: setField_def marshal_MovieDetails_def)
  next
    case 2
    with assms(2) obtain s where "v = JString s" by (cases v) (auto simp: spec_value_def)
    with 2 show ?thesis
      by (auto simp: setField_def marshal_MovieDetails_def)
  next
    case 3
    with assms(2) obtain s where "v = JString s" by (cases v) (auto simp: spec_value_def)
    with 3 show ?thesis
      by (auto simp: setField_def marshal_MovieDetails_def)
  next
    case 4
    with assms(2) obtain s where "v = JString s" by (cases v) (auto simp: spec_value_def)
    with 4 show ?thesis
      by (auto simp: setField_def marshal_MovieDetails_def)
  next
    case 5
    with assms(2) obtain s where "v = JString s" by (cases v) (auto simp: spec_value_def)
    with 5 show ?thesis
      by (auto simp: setField_def marshal_MovieDetails_def)
  next
    case 6
    with assms(2) obtain s where "v = JString s" by (cases v) (auto simp: spec_value_def)
    with 6 show ?thesis
      by (auto simp: setField_def marshal_MovieDetails_def)
  next
    case 7
    with assms(2) obtain b where "v = JBool b" by (cases v) (auto simp: spec_value_def)
    with 7 show ?thesis
      by (auto simp: setField_def marshal_MovieDetails_def)
  next
    case 8
    with assms(2) consider "v = JNull" | vs where "v = JArray vs" "list_all spec_string vs"
      by (cases v) (auto simp: spec_value_def)
    then show ?thesis
    proof cases
      case 1
      with 8 show ?thesis
        by (auto simp: setField_def marshal_MovieDetails_def)
    next
      case 2
      from spec_strings[OF 2(2)] obtain ts where ts: "vs = map JString ts" by blast
      show ?thesis
      proof (cases "ts = []")
        case True
        with 8 2 ts show ?thesis
          by (auto simp: setField_def marshal_MovieDetails_def)
      next
        case False
        with 8 2 ts show ?thesis
          by (auto simp: setField_def marshal_MovieDetails_def unmarshal_elements_JString)
      qed
    qed
  qed
qed


lemma find_eq_Some: "k \<in> set xs \<Longrightarrow> find (\<lambda>tag. tag = k) xs = Some k"
  by (induction xs) auto

lemma fieldFor_tag: "field \<in> set fieldTags \<Longrightarrow> fieldFor field = Some field"
  by (simp add: fieldFor_def find_eq_Some)

lemma unmarshal_members_spec:
  assumes "distinct (map fst members)"
    and "list_all (\<lambda>(field, v). field \<in> set fieldTags \<and> spec_value field v) members"
  shows "\<exists>m' spare'. unmarshal_members members (m, spare) = Some (m', spare') \<and>
     (\<forall>field. field_of (marshal_MovieDetails m') field =
        (case map_of members field of
           Some v \<Rightarrow> Some v
         | None \<Rightarrow> field_of (marshal_MovieDetails m) field))"
  using assms
proof (induction members arbitrary: m spare)
  case Nil
  then show ?case by simp
next
  case (Cons kv rest)
  obtain k v where kv: "kv = (k, v)" by (cases kv)
  from Cons.prems kv have k: "k \<in> set fieldTags" and v: "spec_value k v"
    and fresh: "k \<notin> fst ` set rest" and d: "distinct (map fst rest)"
    and r: "list_all (\<lambda>(field, v). field \<in> set fieldTags \<and> spec_value field v) rest"
    by auto
  from setField_spec[OF k v, of m spare] obtain m1 s1 where
    s: "setField k v (m, spare) = Some (m1, s1)" and
    here: "field_of (marshal_MovieDetails m1) k = Some v" and
    other: "\<And>other. other \<noteq> k \<Longrightarrow>
        field_of (marshal_MovieDetails m1) other = field_of (marshal_MovieDetails m) other"
    by blast
  from Cons.IH[OF d r, of m1 s1] obtain m' spare' where
    u: "unmarshal_members rest (m1, s1) = Some (m', spare')" and
    f: "\<And>field. field_of (marshal_MovieDetails m') field =
        (case map_of rest field of
           Some v \<Rightarrow> Some v
         | None \<Rightarrow> field_of (marshal_MovieDetails m1) field)"
    by blast
  have 1: "unmarshal_members (kv # rest) (m, spare) = Some (m', spare')"
    using kv s u by (simp add: fieldFor_tag[OF k])
  have 2: "field_of (marshal_MovieDetails m') field =
        (case map_of (kv # rest) field of
           Some v \<Rightarrow> Some v
         | None \<Rightarrow> field_of (marshal_MovieDetails m) field)" for field
  proof (cases "field = k")
    case True
    from fresh have "map_of rest k = None"
      by (simp add: map_of_eq_None_iff)
    with f[of k] here True kv show ?thesis by simp
  next
    case False
    with f[of field] other[of field] kv show ?thesis by (simp split: option.splits)
  qed
  from 1 2 show ?case by blast
qed

lemma unmarshal_MovieDetails_spec:
  assumes "spec_target t"
  shows "\<exists>m. unmarshal_MovieDetails t = Some m \<and>
     (\<forall>field. field_of (marshal_MovieDetails m) field =
        (case field_of t field of
           Some v \<Rightarrow> Some v
         | None \<Rightarrow> field_of (marshal_MovieDetails zeroMovieDetails) field))"
proof -
  from assms obtain members where t: "t = JObject members"
    and d: "distinct (map fst members)"
    and r: "list_all (\<lambda>(field, v). field \<in> set fieldTags \<and> spec_value field v) members"
    by (cases t) auto
  from unmarshal_members_spec[OF d r, of zeroMovieDetails "[]"] t show ?thesis
    by auto
qed

lemma unmarshal_list_spec:
  assumes "list_all spec_target targets"
  shows "\<exists>ms. unmarshal_list targets = Some ms \<and> length ms = length targets \<and>
     (\<forall>i < length targets. \<forall>field. field_of (marshal_MovieDetails (ms ! i)) field =
        (case field_of (targets ! i) field of
           Some v \<Rightarrow> Some v
         | None \<Rightarrow> field_of (marshal_MovieDetails zeroMovieDetails) field))"
  using assms
proof (induction targets)
  case Nil
  then show ?case by simp
next
  case (Cons t rest)
  from Cons.prems have "spec_target t" and "list_all spec_target rest" by auto
  from unmarshal_MovieDetails_spec[OF this(1)] obtain m where
    m: "unmarshal_MovieDetails t = Some m" and
    fm: "\<And>field. field_of (marshal_MovieDetails m) field =
        (case field_of t field of
           Some v \<Rightarrow> Some v
         | None \<Rightarrow> field_of (marshal_MovieDetails zeroMovieDetails) field)"
    by blast
  from Cons.IH[OF \<open>list_all spec_target rest\<close>] obtain ms where
    ms: "unmarshal_list rest = Some ms" "length ms = length rest" and
    fms: "\<And>i field. i < length rest \<Longrightarrow> field_of (marshal_MovieDetails (ms ! i)) field =
        (case field_of (rest ! i) field of
           Some v \<Rightarrow> Some v
         | None \<Rightarrow> field_of (marshal_MovieDetails zeroMovieDetails) field)"
    by blast
  have "\<forall>i < length (t # rest). \<forall>field. field_of (marshal_MovieDetails ((m # ms) ! i)) field =
        (case field_of ((t # rest) ! i) field of
           Some v \<Rightarrow> Some v
         | None \<Rightarrow> field_of (marshal_MovieDetails zeroMovieDetails) field)"
  proof (intro allI impI)
    fix i field assume i: "i < length (t # rest)"
    show "field_of (marshal_MovieDetails ((m # ms) ! i)) field =
        (case field_of ((t # rest) ! i) field of
           Some v \<Rightarrow> Some v
         | None \<Rightarrow> field_of (marshal_MovieDetails zeroMovieDetails) field)"
    proof (cases i)
      case 0
      with fm show ?thesis by simp
    next
      case (Suc j)
      with i fms[of j field] show ?thesis by simp
    qed
  qed
  with m ms show ?case by simp
qed

lemma load_then_save_document:
  assumes "spec_state_document d"
  shows "\<exists>targets loaded saved.
     d = JArray targets \<and>
     loadMoviesFromJSON (Document d) = Inr loaded \<and>
     saveMoviesToJSON loaded = JArray saved \<and>
     length saved = length targets \<and>
     (\<forall>i < length targets.
        (\<forall>field v. field_of (targets ! i) field = Some v \<longrightarrow>
           field_of (saved ! i) field = Some v) \<and>
        (\<forall>field. field_of (targets ! i) field = None \<longrightarrow>
           field_of (saved ! i) field =
             field_of (marshal_MovieDetails zeroMovieDetails) field) \<and>
        (\<exists>members. saved ! i = JObject members \<and> map fst members = fieldTags))"
proof -
  from assms obtain targets where d: "d = JArray targets" and t: "list_all spec_target targets"
    by (cases d) auto
  from unmarshal_list_spec[OF t] obtain ms where
    ms: "unmarshal_list targets = Some ms" "length ms = length targets" and
    f: "\<And>i field. i < length targets \<Longrightarrow> field_of (marshal_MovieDetails (ms ! i)) field =
        (case field_of (targets ! i) field of
           Some v \<Rightarrow> Some v
         | None \<Rightarrow> field_of (marshal_MovieDetails zeroMovieDetails) field)"
    by blast
  have l: "loadMoviesFromJSON (Document d) = Inr (Slice ms)"
    using d ms by (simp add: loadMoviesFromJSON_def)
  have s: "saveMoviesToJSON (Slice ms) = JArray (map marshal_MovieDetails ms)"
    by (simp add: saveMoviesToJSON_def MarshalIndent_def)
  have k: "\<forall>i < length targets.
        (\<forall>field v. field_of (targets ! i) field = Some v \<longrightarrow>
           field_of (map marshal_MovieDetails ms ! i) field = Some v) \<and>
        (\<forall>field. field_of (targets ! i) field = None \<longrightarrow>
           field_of (map marshal_MovieDetails ms ! i) field =
             field_of (marshal_MovieDetails zeroMovieDetails) field) \<and>
        (\<exists>members. map marshal_MovieDetails ms ! i = JObject members \<and>
           map fst members = fieldTags)"
  proof (intro allI impI conjI)
    fix i field v assume i: "i < length targets" and "field_of (targets ! i) field = Some v"
    with f[OF i, of field] ms(2) show "field_of (map marshal_MovieDetails ms ! i) field = Some v"
      by simp
  next
    fix i field assume i: "i < length targets" and "field_of (targets ! i) field = None"
    with f[OF i, of field] ms(2) show "field_of (map marshal_MovieDetails ms ! i) field =
             field_of (marshal_MovieDetails zeroMovieDetails) field"
      by simp
  next
    fix i assume i: "i < length targets"
    with ms(2) show "\<exists>members. map marshal_MovieDetails ms ! i = JObject members \<and>
           map fst members = fieldTags"
      by (simp add: marshal_MovieDetails_def fieldTags_def)
  qed
  from d l s ms(2) k show ?thesis
    by (intro exI[of _ targets] exI[of _ "Slice ms"] exI[of _ "map marshal_MovieDetails ms"])
      simp
qed

text \<open>
  C8. Loading a state document and saving at once what was loaded gives a document
  with the same field values, target by target. For every document that loads, the
  saved document loads as the original does: the two hold the same targets with the
  same values of all eight fields. For a document of the form the specification gives,
  the saved document has one object per target, in the same order; every field the
  original names has the same JSON value in it, and a field the original leaves out is
  written with the value Go gives an unset field (the empty string,
  \<^verbatim>\<open>false\<close>, \<^verbatim>\<open>null\<close>). A document that the program wrote is written again
  exactly as it was.
\<close>

theorem load_then_save_keeps_fields:
  "(loadMoviesFromJSON (Document d) = Inr moviesList \<longrightarrow>
      loadMoviesFromJSON (Document (saveMoviesToJSON moviesList)) =
        loadMoviesFromJSON (Document d)) \<and>
   (spec_state_document d \<longrightarrow>
      (\<exists>targets loaded saved.
         d = JArray targets \<and>
         loadMoviesFromJSON (Document d) = Inr loaded \<and>
         saveMoviesToJSON loaded = JArray saved \<and>
         length saved = length targets \<and>
         (\<forall>i < length targets.
            (\<forall>field v. field_of (targets ! i) field = Some v \<longrightarrow>
               field_of (saved ! i) field = Some v) \<and>
            (\<forall>field. field_of (targets ! i) field = None \<longrightarrow>
               field_of (saved ! i) field =
                 field_of (marshal_MovieDetails zeroMovieDetails) field) \<and>
            (\<exists>members. saved ! i = JObject members \<and> map fst members = fieldTags)))) \<and>
   (\<exists>loaded. loadMoviesFromJSON (Document (saveMoviesToJSON written)) = Inr loaded \<and>
      saveMoviesToJSON loaded = saveMoviesToJSON written)"
proof (intro conjI impI)
  assume "loadMoviesFromJSON (Document d) = Inr moviesList"
  then show "loadMoviesFromJSON (Document (saveMoviesToJSON moviesList)) =
        loadMoviesFromJSON (Document d)"
    by (simp add: load_saved)
next
  assume "spec_state_document d"
  then show "\<exists>targets loaded saved.
         d = JArray targets \<and>
         loadMoviesFromJSON (Document d) = Inr loaded \<and>
         saveMoviesToJSON loaded = JArray saved \<and>
         length saved = length targets \<and>
         (\<forall>i < length targets.
            (\<forall>field v. field_of (targets ! i) field = Some v \<longrightarrow>
               field_of (saved ! i) field = Some v) \<and>
            (\<forall>field. field_of (targets ! i) field = None \<longrightarrow>
               field_of (saved ! i) field =
                 field_of (marshal_MovieDetails zeroMovieDetails) field) \<and>
            (\<exists>members. saved ! i = JObject members \<and> map fst members = fieldTags))"
    by (rule load_then_save_document)
next
  show "\<exists>loaded. loadMoviesFromJSON (Document (saveMoviesToJSON written)) = Inr loaded \<and>
      saveMoviesToJSON loaded = saveMoviesToJSON written"
    by (simp add: load_saved)
qed

text \<open>
  A document of two targets. The first is found and has Theatre X, with its keys in
  another order and four of them left out; the second is the README's. Both load; in
  the saved document the first target still has Theatre X and \<^verbatim>\<open>found\<close> true, and
  its city, which was left out, is the empty string; the second has its date, and
  \<^verbatim>\<open>null\<close> for the theatres it did not name.
\<close>

theorem load_then_save_keeps_fields_witness:
  "spec_state_document (JArray [listed_object, sample_object ''20250328'']) \<and>
   loadMoviesFromJSON (Document (JArray [listed_object, sample_object ''20250328''])) =
     Inr (Slice
       [\<lparr>MovieDetails_first.Name = ''Officer On Duty'', SlugName = [], Code = [], City = [],
         CityCode = [], Date = ''20250327'', Found = True, Theatres = Slice [''Theatre X'']\<rparr>,
        sample ''20250328'' NilSlice]) \<and>
   (\<exists>saved.
      saveMoviesToJSON (Slice
       [\<lparr>MovieDetails_first.Name = ''Officer On Duty'', SlugName = [], Code = [], City = [],
         CityCode = [], Date = ''20250327'', Found = True, Theatres = Slice [''Theatre X'']\<rparr>,
        sample ''20250328'' NilSlice]) = JArray saved \<and>
      field_of (saved ! 0) ''theatres'' = Some (JArray [JString ''Theatre X'']) \<and>
      field_of (saved ! 0) ''found'' = Some (JBool True) \<and>
      field_of (saved ! 0) ''city'' = Some (JString []) \<and>
      field_of (saved ! 1) ''date'' = Some (JString ''20250328'') \<and>
      field_of (saved ! 1) ''theatres'' = Some JNull)"
proof -
  let ?d = "JArray [listed_object, sample_object ''20250328'']"
  let ?ml = "Slice
       [\<lparr>MovieDetails_first.Name = ''Officer On Duty'', SlugName = [], Code = [], City = [],
         CityCode = [], Date = ''20250327'', Found = True, Theatres = Slice [''Theatre X'']\<rparr>,
        sample ''20250328'' NilSlice]"
  have doc: "spec_state_document ?d"
    by (simp add: listed_object_def sample_object_def spec_value_def fieldTags_def)
  have loaded: "loadMoviesFromJSON (Document ?d) = Inr ?ml"
    by (simp add: loadMoviesFromJSON_def unmarshal_sample_object listed_object_def
        fieldFor_tags setField_def zeroMovieDetails_def)
  from load_then_save_keeps_fields[THEN conjunct2, THEN conjunct1, THEN mp, OF doc]
  obtain targets moviesList saved where
    t: "?d = JArray targets" and
    l: "loadMoviesFromJSON (Document ?d) = Inr moviesList" and
    s: "saveMoviesToJSON moviesList = JArray saved" and
    some: "\<And>i field v. i < length targets \<Longrightarrow> field_of (targets ! i) field = Some v \<Longrightarrow>
           field_of (saved ! i) field = Some v" and
    none: "\<And>i field. i < length targets \<Longrightarrow> field_of (targets ! i) field = None \<Longrightarrow>
           field_of (saved ! i) field = field_of (marshal_MovieDetails zeroMovieDetails) field"
    by blast
  from t have targets: "targets = [listed_object, sample_object ''20250328'']" by simp
  from l loaded have ml: "moviesList = ?ml" by simp
  have 1: "field_of (saved ! 0) ''theatres'' = Some (JArray [JString ''Theatre X''])"
    by (rule some) (simp_all add: targets listed_object_def)
  have 2: "field_of (saved ! 0) ''found'' = Some (JBool True)"
    by (rule some) (simp_all add: targets listed_object_def)
  have "field_of (saved ! 0) ''city'' = field_of (marshal_MovieDetails zeroMovieDetails) ''city''"
    by (rule none) (simp_all add: targets listed_object_def)
  then have 3: "field_of (saved ! 0) ''city'' = Some (JString [])"
    by (simp add: field_of_marshal zeroMovieDetails_def)
  have 4: "field_of (saved ! 1) ''date'' = Some (JString ''20250328'')"
    by (rule some) (simp_all add: targets sample_object_def)
  have "field_of (saved ! 1) ''theatres'' =
      field_of (marshal_MovieDetails zeroMovieDetails) ''theatres''"
    by (rule none) (simp_all add: targets sample_object_def)
  then have 5: "field_of (saved ! 1) ''theatres'' = Some JNull"
    by (simp add: field_of_marshal zeroMovieDetails_def)
  from s ml have "saveMoviesToJSON ?ml = JArray saved" by simp
  with 1 2 3 4 5 have "\<exists>saved.
      saveMoviesToJSON ?ml = JArray saved \<and>
      field_of (saved ! 0) ''theatres'' = Some (JArray [JString ''Theatre X'']) \<and>
      field_of (saved ! 0) ''found'' = Some (JBool True) \<and>
      field_of (saved ! 0) ''city'' = Some (JString []) \<and>
      field_of (saved ! 1) ''date'' = Some (JString ''20250328'') \<and>
      field_of (saved ! 1) ''theatres'' = Some JNull"
    by blast
  with doc loaded show ?thesis by (intro conjI)
qed

section \<open>The run\<close>

lemma elems_with_elems:
  "processMovies envs i (elems sl) = Inr (ms, sent) \<Longrightarrow> elems (with_elems sl ms) = ms"
  by (cases sl) (auto simp: with_elems_def)

lemma main_Completed:
  assumes "main w = Completed saved ok sent"
  shows "\<exists>moviesList ms. loadMoviesFromJSON (StateFile w) = Inr moviesList \<and>
     processMovies (Targets w) 0 (elems moviesList) = Inr (ms, sent) \<and>
     saved = with_elems moviesList ms \<and> elems saved = ms \<and> ok = WriteFile w"
proof -
  from assms obtain moviesList where l: "loadMoviesFromJSON (StateFile w) = Inr moviesList"
    by (cases "loadMoviesFromJSON (StateFile w)") (auto simp: main_def)
  with assms obtain ms where p: "processMovies (Targets w) 0 (elems moviesList) = Inr (ms, sent)"
    and s: "saved = with_elems moviesList ms" "ok = WriteFile w"
    by (auto simp: main_def split: sum.splits abort.splits)
  from elems_with_elems[OF p] l p s show ?thesis by blast
qed

lemma load_sample_world:
  "loadMoviesFromJSON (StateFile (sample_world envs)) =
     Inr (Slice [sample ''20250327'' NilSlice, sample ''20250328'' NilSlice])"
  by (simp add: sample_world_def loadMoviesFromJSON_def unmarshal_sample_object)

lemma pass_Y:
  "processMovie (rendered [theatre_element ''Theatre X'' 5, theatre_element ''Theatre Y'' 1] (\<lambda>k. False))
     (sample ''20250327'' (Slice [''Theatre X''])) =
   Inr (sample ''20250327'' (Slice [''Theatre X'', ''Theatre Y'']),
     [\<lparr>message =
         \<lparr>msg_movie = ''Officer On Duty'', msg_date = ''27-03-2025'',
          msg_theatre = ''Theatre Y'', msg_shows = 1,
          button_url =
            ''https://in.bookmyshow.com/movies/kochi/officer-on-duty/buytickets/ET00431676/20250327''\<rparr>,
       delivered = False\<rparr>])"
  by (simp add: processMovie_def rendered_def theatre_element_def extractTheatres_def
      Text_of_def reconcileAndNotify_def reconcile_def Contains_def append_slice_def notify_def
      formattedDate_def slice_string_def bookingURL_def sample_def)

text \<open>
  C5. \<^verbatim>\<open>Theatres\<close> only grows: after reconciliation, and after a whole pass that
  returns, the old list is a prefix of the new one; and every list that a run hands to
  \<^verbatim>\<open>saveMoviesToJSON\<close> holds, target by target, the loaded list as a prefix. (A run
  that stops early saves nothing, so the file keeps what it had.)
\<close>

theorem discovered_only_grows:
  "prefix (elems (Theatres m)) (elems (Theatres (fst (reconcile m theatreDetails)))) \<and>
   (processMovie env m = Inr (m', sent) \<longrightarrow>
      prefix (elems (Theatres m)) (elems (Theatres m'))) \<and>
   (loadMoviesFromJSON (StateFile w) = Inr moviesList \<and> main w = Completed saved ok sent' \<longrightarrow>
      list_all2 (\<lambda>old new. prefix (elems (Theatres old)) (elems (Theatres new)))
        (elems moviesList) (elems saved))"
proof (intro conjI impI)
  obtain m2 new where r: "reconcile m theatreDetails = (m2, new)"
    by (cases "reconcile m theatreDetails")
  from reconcile_char(2)[OF r] r
  show "prefix (elems (Theatres m)) (elems (Theatres (fst (reconcile m theatreDetails))))"
    by simp
next
  assume "processMovie env m = Inr (m', sent)"
  from processMovie_grows(2)[OF this]
  show "prefix (elems (Theatres m)) (elems (Theatres m'))" .
next
  assume a: "loadMoviesFromJSON (StateFile w) = Inr moviesList \<and>
    main w = Completed saved ok sent'"
  from main_Completed[of w saved ok sent'] a obtain ms where
    p: "processMovies (Targets w) 0 (elems moviesList) = Inr (ms, sent')" and e: "elems saved = ms"
    by auto
  from processMovies_nth[OF p] have len: "length ms = length (elems moviesList)"
    and nth: "\<forall>j < length (elems moviesList).
      \<exists>s. processMovie (Targets w (0 + j)) (elems moviesList ! j) = Inr (ms ! j, s)"
    by blast+
  have "\<forall>j < length (elems moviesList).
      prefix (elems (Theatres (elems moviesList ! j))) (elems (Theatres (ms ! j)))"
    using nth processMovie_grows(2) by blast
  with len e show "list_all2 (\<lambda>old new. prefix (elems (Theatres old)) (elems (Theatres new)))
        (elems moviesList) (elems saved)"
    by (simp add: list_all2_conv_all_nth)
qed



theorem discovered_only_grows_witness:
  "processMovie (rendered [theatre_element ''Theatre X'' 5, theatre_element ''Theatre Y'' 1] (\<lambda>k. False))
     (sample ''20250327'' (Slice [''Theatre X''])) =
   Inr (sample ''20250327'' (Slice [''Theatre X'', ''Theatre Y'']),
     [\<lparr>message =
         \<lparr>msg_movie = ''Officer On Duty'', msg_date = ''27-03-2025'',
          msg_theatre = ''Theatre Y'', msg_shows = 1,
          button_url =
            ''https://in.bookmyshow.com/movies/kochi/officer-on-duty/buytickets/ET00431676/20250327''\<rparr>,
       delivered = False\<rparr>]) \<and>
   prefix (elems (Theatres (sample ''20250327'' (Slice [''Theatre X'']))))
     (elems (Theatres (sample ''20250327'' (Slice [''Theatre X'', ''Theatre Y'']))))"
proof -
  note grows = discovered_only_grows
    [of "sample ''20250327'' (Slice [''Theatre X''])" "[]"
        "rendered [theatre_element ''Theatre X'' 5, theatre_element ''Theatre Y'' 1] (\<lambda>k. False)"
        "sample ''20250327'' (Slice [''Theatre X'', ''Theatre Y''])"
        "[\<lparr>message =
         \<lparr>msg_movie = ''Officer On Duty'', msg_date = ''27-03-2025'',
          msg_theatre = ''Theatre Y'', msg_shows = 1,
          button_url =
            ''https://in.bookmyshow.com/movies/kochi/officer-on-duty/buytickets/ET00431676/20250327''\<rparr>,
       delivered = False\<rparr>]"]
  have "prefix (elems (Theatres (sample ''20250327'' (Slice [''Theatre X'']))))
     (elems (Theatres (sample ''20250327'' (Slice [''Theatre X'', ''Theatre Y'']))))"
    by (rule grows[THEN conjunct2, THEN conjunct1, THEN mp, OF pass_Y])
  with pass_Y show ?thesis by (intro conjI)
qed


lemma main_other_send:
  assumes "main w = Completed saved ok sent"
  shows "\<exists>sent'. main (w\<lparr>Targets := \<lambda>i. (Targets w i)\<lparr>sendTelegramNotification := ds i\<rparr>\<rparr>) =
      Completed saved ok sent' \<and> map message sent' = map message sent"
proof -
  from main_Completed[OF assms] obtain moviesList ms where
    l: "loadMoviesFromJSON (StateFile w) = Inr moviesList" and
    p: "processMovies (Targets w) 0 (elems moviesList) = Inr (ms, sent)" and
    s: "saved = with_elems moviesList ms" "ok = WriteFile w"
    by blast
  from processMovies_other_send[OF p, of ds] obtain sent' where
    "processMovies (\<lambda>j. (Targets w j)\<lparr>sendTelegramNotification := ds j\<rparr>) 0 (elems moviesList) =
       Inr (ms, sent')" "map message sent' = map message sent"
    by blast
  with l s show ?thesis by (simp add: main_def)
qed

lemma processMovie_first_other_send:
  assumes "processMovie_first env m = Inr (m', sent)"
  shows "\<exists>sent'. processMovie_first (env\<lparr>sendTelegramNotification := d, sendIFTTTVoipCall := c\<rparr>) m =
      Inr (m', sent') \<and> map alert sent' = map alert sent"
  using assms
  by (auto simp: processMovie_first_def foundBookings_def Let_def
      split: if_splits option.splits sum.splits)

lemma processMovie_first_settles:
  assumes "processMovie_first env m = Inr (m', sent)" and "sent \<noteq> []"
  shows "Found m'"
  using assms
  by (auto simp: processMovie_first_def foundBookings_def Let_def
      split: if_splits option.splits sum.splits)

lemma processMovie_first_settled: "Found m \<Longrightarrow> processMovie_first env m = Inr (m, [])"
  by (simp add: processMovie_first_def)

lemma processMovie_other_send_Inl:
  assumes "processMovie env m = Inl a"
  shows "processMovie (env\<lparr>sendTelegramNotification := d\<rparr>) m = Inl a"
proof -
  have same: "env\<lparr>sendTelegramNotification := sendTelegramNotification env\<rparr> = env"
    by simp
  from processMovie_send_cases[of env m] show ?thesis
  proof
    assume "\<exists>r. \<forall>d. processMovie (env\<lparr>sendTelegramNotification := d\<rparr>) m = r"
    then obtain r where r: "\<And>d. processMovie (env\<lparr>sendTelegramNotification := d\<rparr>) m = r"
      by blast
    from r[of "sendTelegramNotification env"] assms have "r = Inl a"
      by (simp only: same)
    with r[of d] show ?thesis by simp
  next
    assume "\<exists>obs. \<forall>d. processMovie (env\<lparr>sendTelegramNotification := d\<rparr>) m =
      map_sum Panicked id (reconcileAndNotify d m obs)"
    then obtain obs where r: "\<And>d. processMovie (env\<lparr>sendTelegramNotification := d\<rparr>) m =
      map_sum Panicked id (reconcileAndNotify d m obs)"
      by blast
    from r[of "sendTelegramNotification env"] assms have
      "map_sum Panicked id (reconcileAndNotify (sendTelegramNotification env) m obs) = Inl a"
      by (simp only: same)
    then obtain p where p: "reconcileAndNotify (sendTelegramNotification env) m obs = Inl p"
      and a: "a = Panicked p"
      by (cases "reconcileAndNotify (sendTelegramNotification env) m obs") auto
    from reconcileAndNotify_other_send(2)[OF p, of d] a r[of d] show ?thesis by simp
  qed
qed

lemma processMovies_cong:
  "\<forall>j < length ms. envs2 (i + j) = envs1 (i + j) \<Longrightarrow>
     processMovies envs2 i ms = processMovies envs1 i ms"
proof (induction ms arbitrary: i)
  case Nil
  then show ?case by simp
next
  case (Cons m rest)
  from Cons.prems[rule_format, of 0] have h: "envs2 i = envs1 i" by simp
  have "\<forall>j < length rest. envs2 (Suc i + j) = envs1 (Suc i + j)"
  proof (intro allI impI)
    fix j assume "j < length rest"
    with Cons.prems[rule_format, of "Suc j"] show "envs2 (Suc i + j) = envs1 (Suc i + j)"
      by simp
  qed
  from Cons.IH[OF this] h show ?case by (simp split: sum.splits prod.splits)
qed

lemma next_run_does_not_repeat:
  assumes "loadMoviesFromJSON (StateFile w) = Inr moviesList"
    and "main w = Completed saved True sent0"
    and "file_after w = Some (StateFile w2)"
  shows "loadMoviesFromJSON (StateFile w2) = Inr saved"
    and "length (elems saved) = length (elems moviesList)"
    and "\<forall>j < length (elems moviesList). \<exists>s.
       processMovie (Targets w j) (elems moviesList ! j) = Inr (elems saved ! j, s) \<and>
       (\<forall>a \<in> set s. msg_theatre (message a) \<in> set (elems (Theatres (elems saved ! j)))) \<and>
       (\<forall>m2 s2. processMovie (Targets w2 j) (elems saved ! j) = Inr (m2, s2) \<longrightarrow>
          (\<forall>a \<in> set s. \<forall>b \<in> set s2.
             msg_theatre (message b) \<noteq> msg_theatre (message a)))"
proof -
  from assms(2,3) have f: "StateFile w2 = Document (saveMoviesToJSON saved)"
    by (simp add: file_after_def)
  then show "loadMoviesFromJSON (StateFile w2) = Inr saved"
    by (simp add: load_saved)
  from main_Completed[OF assms(2)] assms(1) obtain ms where
    p1: "processMovies (Targets w) 0 (elems moviesList) = Inr (ms, sent0)" and
    e1: "elems saved = ms"
    by auto
  from processMovies_nth[OF p1] e1 have
    n1: "\<forall>j < length (elems moviesList).
      \<exists>s. processMovie (Targets w (0 + j)) (elems moviesList ! j) = Inr (elems saved ! j, s)"
    and len1: "length (elems saved) = length (elems moviesList)"
    by auto
  from len1 show "length (elems saved) = length (elems moviesList)" .
  show "\<forall>j < length (elems moviesList). \<exists>s.
       processMovie (Targets w j) (elems moviesList ! j) = Inr (elems saved ! j, s) \<and>
       (\<forall>a \<in> set s. msg_theatre (message a) \<in> set (elems (Theatres (elems saved ! j)))) \<and>
       (\<forall>m2 s2. processMovie (Targets w2 j) (elems saved ! j) = Inr (m2, s2) \<longrightarrow>
          (\<forall>a \<in> set s. \<forall>b \<in> set s2.
             msg_theatre (message b) \<noteq> msg_theatre (message a)))"
  proof (intro allI impI)
    fix j assume j: "j < length (elems moviesList)"
    with n1 obtain s where
      s: "processMovie (Targets w j) (elems moviesList ! j) = Inr (elems saved ! j, s)"
      by auto
    have a: "\<forall>a \<in> set s. msg_theatre (message a) \<in> set (elems (Theatres (elems saved ! j)))"
      using processMovie_grows(3)[OF s] by blast
    have b: "\<forall>m2 s2. processMovie (Targets w2 j) (elems saved ! j) = Inr (m2, s2) \<longrightarrow>
          (\<forall>a \<in> set s. \<forall>b \<in> set s2.
             msg_theatre (message b) \<noteq> msg_theatre (message a))"
    proof (intro allI impI ballI)
      fix m2 s2 x y
      assume p2: "processMovie (Targets w2 j) (elems saved ! j) = Inr (m2, s2)"
        and x: "x \<in> set s" and y: "y \<in> set s2"
      from processMovie_grows(3)[OF p2] y
      have "msg_theatre (message y) \<notin> set (elems (Theatres (elems saved ! j)))" by blast
      moreover from a x
      have "msg_theatre (message x) \<in> set (elems (Theatres (elems saved ! j)))" by blast
      ultimately show "msg_theatre (message y) \<noteq> msg_theatre (message x)" by metis
    qed
    from s a b show "\<exists>s.
       processMovie (Targets w j) (elems moviesList ! j) = Inr (elems saved ! j, s) \<and>
       (\<forall>a \<in> set s. msg_theatre (message a) \<in> set (elems (Theatres (elems saved ! j)))) \<and>
       (\<forall>m2 s2. processMovie (Targets w2 j) (elems saved ! j) = Inr (m2, s2) \<longrightarrow>
          (\<forall>a \<in> set s. \<forall>b \<in> set s2.
             msg_theatre (message b) \<noteq> msg_theatre (message a)))"
      by (intro exI conjI)
  qed
qed

lemma unsaved_run_repeats:
  assumes "loadMoviesFromJSON (StateFile w) = Inr moviesList"
    and "main w = Exit1 \<or> main w = Recovered p"
    and "processMovies (Targets w) 0 (take n (elems moviesList)) = Inr (ms, sent)"
    and "file_after w = Some (StateFile w2)"
    and "\<forall>i < n. Targets w2 i = (Targets w i)\<lparr>sendTelegramNotification := ds i\<rparr>"
  shows "loadMoviesFromJSON (StateFile w2) = Inr moviesList"
    and "\<exists>sent'. processMovies (Targets w2) 0 (take n (elems moviesList)) = Inr (ms, sent') \<and>
       map message sent' = map message sent"
proof -
  from assms(2,4) have "StateFile w2 = StateFile w"
    by (auto simp: file_after_def)
  with assms(1) show "loadMoviesFromJSON (StateFile w2) = Inr moviesList" by simp
  from processMovies_other_send[OF assms(3), of ds] obtain sent' where
    o: "processMovies (\<lambda>j. (Targets w j)\<lparr>sendTelegramNotification := ds j\<rparr>) 0
          (take n (elems moviesList)) = Inr (ms, sent')"
    and m: "map message sent' = map message sent"
    by blast
  have "\<forall>j < length (take n (elems moviesList)).
      Targets w2 (0 + j) = (Targets w (0 + j))\<lparr>sendTelegramNotification := ds (0 + j)\<rparr>"
    using assms(5) by simp
  from processMovies_cong[of "take n (elems moviesList)" "Targets w2" 0
      "\<lambda>j. (Targets w j)\<lparr>sendTelegramNotification := ds j\<rparr>", OF this] o
  have "processMovies (Targets w2) 0 (take n (elems moviesList)) = Inr (ms, sent')"
    by simp
  with m show "\<exists>sent'. processMovies (Targets w2) 0 (take n (elems moviesList)) = Inr (ms, sent') \<and>
       map message sent' = map message sent"
    by blast
qed

text \<open>
  C6, as the code has it. What \<^verbatim>\<open>sendTelegramNotification\<close> (and
  \<^verbatim>\<open>sendIFTTTVoipCall\<close>) returns changes nothing but the log: with any other
  answers the pass returns the same target and attempts the same messages, or stops
  early in the same way, and the run saves the same list. Every theatre a pass tried to
  notify, delivered or not, is in \<^verbatim>\<open>Theatres\<close> afterwards.

  When the run reaches the save and the write succeeds, the next run loads the list
  this run saved, and whatever page it meets for a target, its pass notifies none of
  the theatres that this run's pass for that target tried to notify.

  When the run ends early, the file is as it was and the next run loads the same list:
  for the targets this run had passed before it ended, a next run that meets the same
  pages attempts the same messages again, whatever the deliveries answer.

  In the first-availability watcher a pass that sent an alert has set \<^verbatim>\<open>Found\<close>,
  and every later pass skips the target.
\<close>

theorem delivery_failure_keeps_the_update:
  "(processMovie env m = Inr (m', sent) \<longrightarrow>
      (\<exists>sent'. processMovie (env\<lparr>sendTelegramNotification := d\<rparr>) m = Inr (m', sent') \<and>
         map message sent' = map message sent) \<and>
      (\<forall>s \<in> set sent. msg_theatre (message s) \<in> set (elems (Theatres m')))) \<and>
   (processMovie env m = Inl a \<longrightarrow>
      processMovie (env\<lparr>sendTelegramNotification := d\<rparr>) m = Inl a) \<and>
   (main w = Completed saved ok sent0 \<longrightarrow>
      (\<exists>sent0'. main (w\<lparr>Targets := \<lambda>i. (Targets w i)\<lparr>sendTelegramNotification := ds i\<rparr>\<rparr>) =
         Completed saved ok sent0' \<and> map message sent0' = map message sent0)) \<and>
   (loadMoviesFromJSON (StateFile w) = Inr moviesList \<and>
    main w = Completed saved True sent0 \<and>
    file_after w = Some (StateFile w2) \<longrightarrow>
      loadMoviesFromJSON (StateFile w2) = Inr saved \<and>
      length (elems saved) = length (elems moviesList) \<and>
      (\<forall>j < length (elems moviesList). \<exists>s.
         processMovie (Targets w j) (elems moviesList ! j) = Inr (elems saved ! j, s) \<and>
         (\<forall>a \<in> set s. msg_theatre (message a) \<in> set (elems (Theatres (elems saved ! j)))) \<and>
         (\<forall>m2 s2. processMovie (Targets w2 j) (elems saved ! j) = Inr (m2, s2) \<longrightarrow>
            (\<forall>a \<in> set s. \<forall>b \<in> set s2.
               msg_theatre (message b) \<noteq> msg_theatre (message a))))) \<and>
   (loadMoviesFromJSON (StateFile w) = Inr moviesList \<and>
    (main w = Exit1 \<or> main w = Recovered p) \<and>
    processMovies (Targets w) 0 (take n (elems moviesList)) = Inr (ms, sent) \<and>
    file_after w = Some (StateFile w2) \<and>
    (\<forall>i < n. Targets w2 i = (Targets w i)\<lparr>sendTelegramNotification := ds i\<rparr>) \<longrightarrow>
      loadMoviesFromJSON (StateFile w2) = Inr moviesList \<and>
      (\<exists>sent'. processMovies (Targets w2) 0 (take n (elems moviesList)) = Inr (ms, sent') \<and>
         map message sent' = map message sent)) \<and>
   (processMovie_first env1 m1 = Inr (m1', sent1) \<longrightarrow>
      (\<exists>sent1'. processMovie_first
           (env1\<lparr>sendTelegramNotification := d1, sendIFTTTVoipCall := c1\<rparr>) m1 =
         Inr (m1', sent1') \<and> map alert sent1' = map alert sent1) \<and>
      (sent1 \<noteq> [] \<longrightarrow> Found m1' \<and> processMovie_first env3 m1' = Inr (m1', [])))"
proof (intro conjI impI)
  assume p: "processMovie env m = Inr (m', sent)"
  from processMovie_other_send[OF p]
  show "\<exists>sent'. processMovie (env\<lparr>sendTelegramNotification := d\<rparr>) m = Inr (m', sent') \<and>
         map message sent' = map message sent" .
  from processMovie_grows(3)[OF p]
  show "\<forall>s \<in> set sent. msg_theatre (message s) \<in> set (elems (Theatres m'))"
    by blast
next
  assume "processMovie env m = Inl a"
  then show "processMovie (env\<lparr>sendTelegramNotification := d\<rparr>) m = Inl a"
    by (rule processMovie_other_send_Inl)
next
  assume c: "main w = Completed saved ok sent0"
  from main_other_send[OF c]
  show "\<exists>sent0'. main (w\<lparr>Targets := \<lambda>i. (Targets w i)\<lparr>sendTelegramNotification := ds i\<rparr>\<rparr>) =
         Completed saved ok sent0' \<and> map message sent0' = map message sent0" .
next
  assume r: "loadMoviesFromJSON (StateFile w) = Inr moviesList \<and>
    main w = Completed saved True sent0 \<and>
    file_after w = Some (StateFile w2)"
  then have r1: "loadMoviesFromJSON (StateFile w) = Inr moviesList"
    and r2: "main w = Completed saved True sent0"
    and r3: "file_after w = Some (StateFile w2)"
    by blast+
  from next_run_does_not_repeat[OF r1 r2 r3]
  show "loadMoviesFromJSON (StateFile w2) = Inr saved"
    and "length (elems saved) = length (elems moviesList)"
    and "\<forall>j < length (elems moviesList). \<exists>s.
         processMovie (Targets w j) (elems moviesList ! j) = Inr (elems saved ! j, s) \<and>
         (\<forall>a \<in> set s. msg_theatre (message a) \<in> set (elems (Theatres (elems saved ! j)))) \<and>
         (\<forall>m2 s2. processMovie (Targets w2 j) (elems saved ! j) = Inr (m2, s2) \<longrightarrow>
            (\<forall>a \<in> set s. \<forall>b \<in> set s2.
               msg_theatre (message b) \<noteq> msg_theatre (message a)))"
    by blast+
next
  assume r: "loadMoviesFromJSON (StateFile w) = Inr moviesList \<and>
    (main w = Exit1 \<or> main w = Recovered p) \<and>
    processMovies (Targets w) 0 (take n (elems moviesList)) = Inr (ms, sent) \<and>
    file_after w = Some (StateFile w2) \<and>
    (\<forall>i < n. Targets w2 i = (Targets w i)\<lparr>sendTelegramNotification := ds i\<rparr>)"
  then have r1: "loadMoviesFromJSON (StateFile w) = Inr moviesList"
    and r2: "main w = Exit1 \<or> main w = Recovered p"
    and r3: "processMovies (Targets w) 0 (take n (elems moviesList)) = Inr (ms, sent)"
    and r4: "file_after w = Some (StateFile w2)"
    and r5: "\<forall>i < n. Targets w2 i = (Targets w i)\<lparr>sendTelegramNotification := ds i\<rparr>"
    by blast+
  from unsaved_run_repeats[OF r1 r2 r3 r4 r5]
  show "loadMoviesFromJSON (StateFile w2) = Inr moviesList"
    and "\<exists>sent'. processMovies (Targets w2) 0 (take n (elems moviesList)) = Inr (ms, sent') \<and>
         map message sent' = map message sent"
    by blast+
next
  assume p: "processMovie_first env1 m1 = Inr (m1', sent1)"
  from processMovie_first_other_send[OF p]
  show "\<exists>sent1'. processMovie_first
           (env1\<lparr>sendTelegramNotification := d1, sendIFTTTVoipCall := c1\<rparr>) m1 =
         Inr (m1', sent1') \<and> map alert sent1' = map alert sent1" .
  assume n: "sent1 \<noteq> []"
  from processMovie_first_settles[OF p n] show "Found m1'" .
  then show "processMovie_first env3 m1' = Inr (m1', [])"
    by (rule processMovie_first_settled)
qed

text \<open>
  Two runs. In the first, Theatre Y is new for the first target and its delivery fails;
  the run saves. The second run loads what the first saved and meets pages that list
  Theatre Y for both targets: it notifies Theatre Y for the second target only.
\<close>

theorem delivery_failure_keeps_the_update_witness:
  "main (sample_world (\<lambda>i. if i = 0 then rendered [theatre_element ''Theatre Y'' 1] (\<lambda>k. False)
      else rendered [] (\<lambda>k. True))) =
   Completed (Slice [sample ''20250327'' (Slice [''Theatre Y'']), sample ''20250328'' NilSlice])
     True
     [\<lparr>message =
         \<lparr>msg_movie = ''Officer On Duty'', msg_date = ''27-03-2025'',
          msg_theatre = ''Theatre Y'', msg_shows = 1,
          button_url =
            ''https://in.bookmyshow.com/movies/kochi/officer-on-duty/buytickets/ET00431676/20250327''\<rparr>,
       delivered = False\<rparr>] \<and>
   loadMoviesFromJSON
     (Document (saveMoviesToJSON
        (Slice [sample ''20250327'' (Slice [''Theatre Y'']), sample ''20250328'' NilSlice]))) =
     Inr (Slice [sample ''20250327'' (Slice [''Theatre Y'']), sample ''20250328'' NilSlice]) \<and>
   main
     \<lparr>StateFile = Document (saveMoviesToJSON
        (Slice [sample ''20250327'' (Slice [''Theatre Y'']), sample ''20250328'' NilSlice])),
      Targets = (\<lambda>i. rendered [theatre_element ''Theatre Y'' 1] (\<lambda>k. True)),
      WriteFile = True\<rparr> =
   Completed
     (Slice [sample ''20250327'' (Slice [''Theatre Y'']),
             sample ''20250328'' (Slice [''Theatre Y''])])
     True
     [\<lparr>message =
         \<lparr>msg_movie = ''Officer On Duty'', msg_date = ''28-03-2025'',
          msg_theatre = ''Theatre Y'', msg_shows = 1,
          button_url =
            ''https://in.bookmyshow.com/movies/kochi/officer-on-duty/buytickets/ET00431676/20250328''\<rparr>,
       delivered = True\<rparr>]"
proof -
  let ?w = "sample_world (\<lambda>i. if i = 0 then rendered [theatre_element ''Theatre Y'' 1] (\<lambda>k. False)
      else rendered [] (\<lambda>k. True))"
  let ?saved = "Slice [sample ''20250327'' (Slice [''Theatre Y'']), sample ''20250328'' NilSlice]"
  let ?w2 = "\<lparr>StateFile = Document (saveMoviesToJSON ?saved),
      Targets = (\<lambda>i. rendered [theatre_element ''Theatre Y'' 1] (\<lambda>k. True)),
      WriteFile = True\<rparr>"
  let ?sent0 = "[\<lparr>message =
         \<lparr>msg_movie = ''Officer On Duty'', msg_date = ''27-03-2025'',
          msg_theatre = ''Theatre Y'', msg_shows = 1,
          button_url =
            ''https://in.bookmyshow.com/movies/kochi/officer-on-duty/buytickets/ET00431676/20250327''\<rparr>,
       delivered = False\<rparr>]"
  have first_run: "main ?w = Completed ?saved True ?sent0"
    unfolding main_def load_sample_world
    by (simp add: sample_world_def with_elems_def processMovie_def rendered_def
        theatre_element_def extractTheatres_def Text_of_def reconcileAndNotify_def reconcile_def
        Contains_def append_slice_def notify_def formattedDate_def slice_string_def
        bookingURL_def sample_def)
  have kept: "file_after ?w = Some (StateFile ?w2)"
    unfolding file_after_def first_run by simp
  have loaded: "loadMoviesFromJSON (StateFile ?w) =
      Inr (Slice [sample ''20250327'' NilSlice, sample ''20250328'' NilSlice])"
    by (rule load_sample_world)
  note next_run = delivery_failure_keeps_the_update
    [THEN conjunct2, THEN conjunct2, THEN conjunct2, THEN conjunct1, THEN mp,
     OF conjI[OF loaded conjI[OF first_run kept]], THEN conjunct1]
  then have reloaded: "loadMoviesFromJSON (Document (saveMoviesToJSON ?saved)) = Inr ?saved"
    by simp
  have second_run: "main ?w2 =
   Completed
     (Slice [sample ''20250327'' (Slice [''Theatre Y'']),
             sample ''20250328'' (Slice [''Theatre Y''])])
     True
     [\<lparr>message =
         \<lparr>msg_movie = ''Officer On Duty'', msg_date = ''28-03-2025'',
          msg_theatre = ''Theatre Y'', msg_shows = 1,
          button_url =
            ''https://in.bookmyshow.com/movies/kochi/officer-on-duty/buytickets/ET00431676/20250328''\<rparr>,
       delivered = True\<rparr>]"
    unfolding main_def
    by (simp add: reloaded)
      (simp add: with_elems_def processMovie_def rendered_def
        theatre_element_def extractTheatres_def Text_of_def reconcileAndNotify_def reconcile_def
        Contains_def append_slice_def notify_def formattedDate_def slice_string_def
        bookingURL_def sample_def)
  from first_run reloaded second_run show ?thesis by (intro conjI)
qed

text \<open>
  The claim as stated fails when the run does not reach the save. In the first run
  Theatre Y is new for the first target and its delivery fails; for the second target
  \<^verbatim>\<open>browser.Connect()\<close> fails and the process exits, so the state file keeps what
  it had. The next run, on the same file, notifies Theatre Y again.
\<close>

theorem unsaved_run_counterexample:
  "processMovie (rendered [theatre_element ''Theatre Y'' 1] (\<lambda>k. False))
     (sample ''20250327'' NilSlice) =
   Inr (sample ''20250327'' (Slice [''Theatre Y'']),
     [\<lparr>message =
         \<lparr>msg_movie = ''Officer On Duty'', msg_date = ''27-03-2025'',
          msg_theatre = ''Theatre Y'', msg_shows = 1,
          button_url =
            ''https://in.bookmyshow.com/movies/kochi/officer-on-duty/buytickets/ET00431676/20250327''\<rparr>,
       delivered = False\<rparr>]) \<and>
   main (sample_world (\<lambda>i. if i = 0 then rendered [theatre_element ''Theatre Y'' 1] (\<lambda>k. False)
      else (rendered [] (\<lambda>k. True))\<lparr>Connect := False\<rparr>)) = Exit1 \<and>
   main (sample_world (\<lambda>i. if i = 0 then rendered [theatre_element ''Theatre Y'' 1] (\<lambda>k. True)
      else rendered [] (\<lambda>k. True))) =
   Completed (Slice [sample ''20250327'' (Slice [''Theatre Y'']), sample ''20250328'' NilSlice])
     True
     [\<lparr>message =
         \<lparr>msg_movie = ''Officer On Duty'', msg_date = ''27-03-2025'',
          msg_theatre = ''Theatre Y'', msg_shows = 1,
          button_url =
            ''https://in.bookmyshow.com/movies/kochi/officer-on-duty/buytickets/ET00431676/20250327''\<rparr>,
       delivered = True\<rparr>]"
proof -
  have first_pass: "processMovie (rendered [theatre_element ''Theatre Y'' 1] (\<lambda>k. False))
     (sample ''20250327'' NilSlice) =
   Inr (sample ''20250327'' (Slice [''Theatre Y'']),
     [\<lparr>message =
         \<lparr>msg_movie = ''Officer On Duty'', msg_date = ''27-03-2025'',
          msg_theatre = ''Theatre Y'', msg_shows = 1,
          button_url =
            ''https://in.bookmyshow.com/movies/kochi/officer-on-duty/buytickets/ET00431676/20250327''\<rparr>,
       delivered = False\<rparr>])"
    by (simp add: processMovie_def rendered_def theatre_element_def extractTheatres_def
        Text_of_def reconcileAndNotify_def reconcile_def Contains_def append_slice_def
        notify_def formattedDate_def slice_string_def bookingURL_def sample_def)
  have first_run: "main (sample_world (\<lambda>i. if i = 0 then rendered [theatre_element ''Theatre Y'' 1] (\<lambda>k. False)
      else (rendered [] (\<lambda>k. True))\<lparr>Connect := False\<rparr>)) = Exit1"
    unfolding main_def load_sample_world
    by (simp add: sample_world_def processMovie_def rendered_def
        theatre_element_def extractTheatres_def Text_of_def reconcileAndNotify_def reconcile_def
        Contains_def append_slice_def notify_def formattedDate_def slice_string_def
        bookingURL_def sample_def)
  have second_run: "main (sample_world (\<lambda>i. if i = 0 then rendered [theatre_element ''Theatre Y'' 1] (\<lambda>k. True)
      else rendered [] (\<lambda>k. True))) =
   Completed (Slice [sample ''20250327'' (Slice [''Theatre Y'']), sample ''20250328'' NilSlice])
     True
     [\<lparr>message =
         \<lparr>msg_movie = ''Officer On Duty'', msg_date = ''27-03-2025'',
          msg_theatre = ''Theatre Y'', msg_shows = 1,
          button_url =
            ''https://in.bookmyshow.com/movies/kochi/officer-on-duty/buytickets/ET00431676/20250327''\<rparr>,
       delivered = True\<rparr>]"
    unfolding main_def load_sample_world
    by (simp add: sample_world_def with_elems_def processMovie_def rendered_def
        theatre_element_def extractTheatres_def Text_of_def reconcileAndNotify_def reconcile_def
        Contains_def append_slice_def notify_def formattedDate_def slice_string_def
        bookingURL_def sample_def)
  from first_pass first_run second_run show ?thesis by (intro conjI)
qed


lemma main_first_failure:
  assumes "loadMoviesFromJSON (StateFile w) = Inr moviesList"
    and "j < length (elems moviesList)"
    and "\<forall>i < j. \<exists>r. processMovie (Targets w i) (elems moviesList ! i) = Inr r"
    and "processMovie (Targets w j) (elems moviesList ! j) = Inl a"
  shows "main w = (case a of FatalExit \<Rightarrow> Exit1 | Panicked p \<Rightarrow> Recovered p)"
proof -
  from assms(3) have "\<forall>i < j. \<exists>r. processMovie (Targets w (0 + i)) (elems moviesList ! i) = Inr r"
    by simp
  from processMovies_first_failure[OF assms(2) this] assms(4)
  have "processMovies (Targets w) 0 (elems moviesList) = Inl a" by simp
  with assms(1) show ?thesis by (simp add: main_def split: abort.splits)
qed

lemma processMovie_nil_name:
  assumes "\<not> Found m" and "page_opens env" and "\<not> names_found env"
  shows "processMovie env m = Inl (Panicked NilPointerDereference)"
proof -
  from assms(3) obtain c els where c: "Page_Element env = Some c" and e: "Elements c = Some els"
    and n: "\<not> list_all (\<lambda>el. Element_name el \<noteq> None) els"
    by (auto simp: names_found_def split: option.splits)
  from n obtain el where el: "el \<in> set els" "Element_name el = None"
    by (auto simp: list_all_iff)
  then have "els \<noteq> []" by auto
  with extractLoop_nil_name[OF el] have "extractTheatres els = Inl NilPointerDereference"
    by (simp add: extractTheatres_def)
  with assms(1,2) c e show ?thesis
    by (simp add: processMovie_def page_opens_def)
qed

lemma processMovies_all_return:
  "\<forall>j < length ms. \<exists>r. processMovie (envs (i + j)) (ms ! j) = Inr r \<Longrightarrow>
   \<exists>ms' sent. processMovies envs i ms = Inr (ms', sent)"
proof (induction ms arbitrary: i)
  case Nil
  then show ?case by simp
next
  case (Cons m rest)
  from Cons.prems[rule_format, of 0] obtain m' s where p: "processMovie (envs i) m = Inr (m', s)"
    by auto
  have "\<forall>j < length rest. \<exists>r. processMovie (envs (Suc i + j)) (rest ! j) = Inr r"
  proof (intro allI impI)
    fix j assume "j < length rest"
    with Cons.prems[rule_format, of "Suc j"]
    show "\<exists>r. processMovie (envs (Suc i + j)) (rest ! j) = Inr r" by simp
  qed
  from Cons.IH[OF this] obtain rest' s' where "processMovies envs (Suc i) rest = Inr (rest', s')"
    by blast
  with p show ?case by simp
qed

lemma main_pass_fails:
  assumes "loadMoviesFromJSON (StateFile w) = Inr moviesList"
    and "j < length (elems moviesList)"
    and "processMovie (Targets w j) (elems moviesList ! j) = Inl a"
  shows "main w = Exit1 \<or> (\<exists>p. main w = Recovered p)"
proof (cases "main w")
  case Exit1
  then show ?thesis by simp
next
  case (Recovered p)
  then show ?thesis by simp
next
  case (Completed saved ok sent)
  from main_Completed[OF this] assms(1) obtain ms where
    p: "processMovies (Targets w) 0 (elems moviesList) = Inr (ms, sent)"
    by auto
  from processMovies_nth[OF p] assms(2) obtain s where
    "processMovie (Targets w j) (elems moviesList ! j) = Inr (ms ! j, s)"
    by auto
  with assms(3) have False by simp
  then show ?thesis ..
qed

lemma main_reaches_save:
  assumes "loadMoviesFromJSON (StateFile w) = Inr moviesList"
  shows "(\<exists>saved ok sent. main w = Completed saved ok sent) =
     (\<forall>i < length (elems moviesList).
        \<exists>r. processMovie (Targets w i) (elems moviesList ! i) = Inr r)"
proof
  assume "\<exists>saved ok sent. main w = Completed saved ok sent"
  then obtain saved ok sent where c: "main w = Completed saved ok sent" by blast
  from main_Completed[OF c] assms obtain ms where
    p: "processMovies (Targets w) 0 (elems moviesList) = Inr (ms, sent)"
    by auto
  from processMovies_nth[OF p]
  show "\<forall>i < length (elems moviesList).
        \<exists>r. processMovie (Targets w i) (elems moviesList ! i) = Inr r"
    by auto
next
  assume "\<forall>i < length (elems moviesList).
        \<exists>r. processMovie (Targets w i) (elems moviesList ! i) = Inr r"
  then have "\<forall>j < length (elems moviesList).
        \<exists>r. processMovie (Targets w (0 + j)) (elems moviesList ! j) = Inr r"
    by simp
  from processMovies_all_return[OF this] obtain ms sent where
    "processMovies (Targets w) 0 (elems moviesList) = Inr (ms, sent)" by blast
  with assms show "\<exists>saved ok sent. main w = Completed saved ok sent"
    by (simp add: main_def)
qed

text \<open>
  C4, as the code has it, for a run whose state loads. The run reaches
  \<^verbatim>\<open>saveMoviesToJSON\<close>, with one entry per loaded target, when for every target not
  yet found the browser connects and no \<^verbatim>\<open>Must\<close> call fails and, unless the
  container or its list of theatre elements is not found, every listed theatre element
  has a name element and the date has at least 8 bytes. In every run that reaches the
  save, a target that was found, or whose container or list of theatre elements is not
  found, is saved as loaded. The run reaches the save exactly when the pass of every
  target returns. When for some target not yet found the connection fails, a
  \<^verbatim>\<open>Must\<close> call fails or a listed theatre element has no name element, the run
  does not reach the save and the file is left as it was; when the passes before that
  target return, a failed connection ends the process (\<^verbatim>\<open>logger.Fatal\<close>), and a
  failed \<^verbatim>\<open>Must\<close> call or a missing name element ends \<^verbatim>\<open>main\<close> in the
  deferred function.
\<close>

theorem save_reached_when_pages_open:
  assumes "loadMoviesFromJSON (StateFile w) = Inr moviesList"
  shows
    "((\<forall>i < length (elems moviesList). \<not> Found (elems moviesList ! i) \<longrightarrow>
         page_opens (Targets w i) \<and>
         (container_missing (Targets w i) \<or>
          names_found (Targets w i) \<and> 8 \<le> length (Date (elems moviesList ! i)))) \<longrightarrow>
       (\<exists>ms sent. main w = Completed (with_elems moviesList ms) (WriteFile w) sent \<and>
          length ms = length (elems moviesList))) \<and>
     (main w = Completed saved ok sent \<longrightarrow>
        length (elems saved) = length (elems moviesList) \<and>
        (\<forall>i < length (elems moviesList).
           Found (elems moviesList ! i) \<or> container_missing (Targets w i) \<longrightarrow>
             elems saved ! i = elems moviesList ! i)) \<and>
     ((\<exists>saved ok sent. main w = Completed saved ok sent) =
        (\<forall>i < length (elems moviesList).
           \<exists>r. processMovie (Targets w i) (elems moviesList ! i) = Inr r)) \<and>
     (j < length (elems moviesList) \<and> \<not> Found (elems moviesList ! j) \<and>
      (\<not> page_opens (Targets w j) \<or> \<not> names_found (Targets w j)) \<longrightarrow>
        (main w = Exit1 \<or> (\<exists>p. main w = Recovered p)) \<and>
        file_after w = Some (StateFile w)) \<and>
     (j < length (elems moviesList) \<and> \<not> Found (elems moviesList ! j) \<and>
      (\<forall>i < j. \<exists>r. processMovie (Targets w i) (elems moviesList ! i) = Inr r) \<longrightarrow>
        (\<not> Connect (Targets w j) \<longrightarrow> main w = Exit1) \<and>
        (Connect (Targets w j) \<and>
         \<not> (MustPage (Targets w j) \<and> MustNavigate (Targets w j) \<and>
            MustWaitDOMStable (Targets w j)) \<longrightarrow>
           main w = Recovered MustFailed) \<and>
        (page_opens (Targets w j) \<and> \<not> names_found (Targets w j) \<longrightarrow>
           main w = Recovered NilPointerDereference))"
proof (intro conjI impI)
  assume "\<forall>i < length (elems moviesList). \<not> Found (elems moviesList ! i) \<longrightarrow>
         page_opens (Targets w i) \<and>
         (container_missing (Targets w i) \<or>
          names_found (Targets w i) \<and> 8 \<le> length (Date (elems moviesList ! i)))"
  then have "\<forall>j < length (elems moviesList). \<not> Found (elems moviesList ! j) \<longrightarrow>
      page_opens (Targets w (0 + j)) \<and>
      (container_missing (Targets w (0 + j)) \<or>
       names_found (Targets w (0 + j)) \<and> 8 \<le> length (Date (elems moviesList ! j)))"
    by simp
  from processMovies_total[OF this] obtain ms sent where
    p: "processMovies (Targets w) 0 (elems moviesList) = Inr (ms, sent)"
    by blast
  from processMovies_nth[OF p] have len: "length ms = length (elems moviesList)"
    by blast
  have "main w = Completed (with_elems moviesList ms) (WriteFile w) sent"
    using assms p by (simp add: main_def)
  with len show "\<exists>ms sent. main w = Completed (with_elems moviesList ms) (WriteFile w) sent \<and>
          length ms = length (elems moviesList)"
    by blast
next
  assume c: "main w = Completed saved ok sent"
  from main_Completed[OF c] assms obtain ms where
    p: "processMovies (Targets w) 0 (elems moviesList) = Inr (ms, sent)" and e: "elems saved = ms"
    by auto
  from processMovies_nth[OF p] have len: "length ms = length (elems moviesList)"
    and nth: "\<forall>j < length (elems moviesList).
      \<exists>s. processMovie (Targets w (0 + j)) (elems moviesList ! j) = Inr (ms ! j, s)"
    by blast+
  from len e show "length (elems saved) = length (elems moviesList)" by simp
  show "\<forall>i < length (elems moviesList).
           Found (elems moviesList ! i) \<or> container_missing (Targets w i) \<longrightarrow>
             elems saved ! i = elems moviesList ! i"
  proof (intro allI impI)
    fix i assume i: "i < length (elems moviesList)"
      and u: "Found (elems moviesList ! i) \<or> container_missing (Targets w i)"
    from i nth obtain s where
      "processMovie (Targets w i) (elems moviesList ! i) = Inr (ms ! i, s)"
      by auto
    from processMovie_unchanged[OF u this] e show "elems saved ! i = elems moviesList ! i"
      by simp
  qed
next
  show "(\<exists>saved ok sent. main w = Completed saved ok sent) =
        (\<forall>i < length (elems moviesList).
           \<exists>r. processMovie (Targets w i) (elems moviesList ! i) = Inr r)"
    by (rule main_reaches_save[OF assms])
next
  assume a: "j < length (elems moviesList) \<and> \<not> Found (elems moviesList ! j) \<and>
      (\<not> page_opens (Targets w j) \<or> \<not> names_found (Targets w j))"
  then have j: "j < length (elems moviesList)" and f: "\<not> Found (elems moviesList ! j)"
    and c: "\<not> page_opens (Targets w j) \<or> \<not> names_found (Targets w j)"
    by blast+
  have "\<exists>a. processMovie (Targets w j) (elems moviesList ! j) = Inl a"
  proof (cases "page_opens (Targets w j)")
    case True
    with c have "\<not> names_found (Targets w j)" by blast
    from processMovie_nil_name[OF f True this] show ?thesis by blast
  next
    case False
    with f show ?thesis
      by (auto simp: processMovie_def page_opens_def)
  qed
  then obtain a where "processMovie (Targets w j) (elems moviesList ! j) = Inl a" by blast
  from main_pass_fails[OF assms j this]
  show "main w = Exit1 \<or> (\<exists>p. main w = Recovered p)" .
  then show "file_after w = Some (StateFile w)"
    by (auto simp: file_after_def)
next
  assume a: "j < length (elems moviesList) \<and> \<not> Found (elems moviesList ! j) \<and>
      (\<forall>i < j. \<exists>r. processMovie (Targets w i) (elems moviesList ! i) = Inr r)"
  assume "\<not> Connect (Targets w j)"
  with a have "processMovie (Targets w j) (elems moviesList ! j) = Inl FatalExit"
    by (simp add: processMovie_page_fails(1))
  from main_first_failure[OF assms _ _ this] a show "main w = Exit1"
    by simp
next
  assume a: "j < length (elems moviesList) \<and> \<not> Found (elems moviesList ! j) \<and>
      (\<forall>i < j. \<exists>r. processMovie (Targets w i) (elems moviesList ! i) = Inr r)"
  assume "Connect (Targets w j) \<and>
         \<not> (MustPage (Targets w j) \<and> MustNavigate (Targets w j) \<and>
            MustWaitDOMStable (Targets w j))"
  with a have "processMovie (Targets w j) (elems moviesList ! j) = Inl (Panicked MustFailed)"
    by (simp add: processMovie_page_fails(2))
  from main_first_failure[OF assms _ _ this] a show "main w = Recovered MustFailed"
    by simp
next
  assume a: "j < length (elems moviesList) \<and> \<not> Found (elems moviesList ! j) \<and>
      (\<forall>i < j. \<exists>r. processMovie (Targets w i) (elems moviesList ! i) = Inr r)"
  assume "page_opens (Targets w j) \<and> \<not> names_found (Targets w j)"
  with a have "processMovie (Targets w j) (elems moviesList ! j) =
      Inl (Panicked NilPointerDereference)"
    by (simp add: processMovie_nil_name)
  from main_first_failure[OF assms _ _ this] a show "main w = Recovered NilPointerDereference"
    by simp
qed

text \<open>
  Two targets: the container of the first is not found, the page of the second lists
  Theatre Y. The run saves both, the first unchanged, the second with Theatre Y.
\<close>

theorem save_reached_when_pages_open_witness:
  "loadMoviesFromJSON
     (StateFile (sample_world (\<lambda>i. if i = 0 then (rendered [] (\<lambda>k. True))\<lparr>Page_Element := None\<rparr>
        else rendered [theatre_element ''Theatre Y'' 1] (\<lambda>k. False)))) =
     Inr (Slice [sample ''20250327'' NilSlice, sample ''20250328'' NilSlice]) \<and>
   container_missing ((rendered [] (\<lambda>k. True))\<lparr>Page_Element := None\<rparr> :: TheatreElement TargetEnv) \<and>
   main (sample_world (\<lambda>i. if i = 0 then (rendered [] (\<lambda>k. True))\<lparr>Page_Element := None\<rparr>
        else rendered [theatre_element ''Theatre Y'' 1] (\<lambda>k. False))) =
     Completed
       (Slice [sample ''20250327'' NilSlice, sample ''20250328'' (Slice [''Theatre Y''])])
       True
       [\<lparr>message =
           \<lparr>msg_movie = ''Officer On Duty'', msg_date = ''28-03-2025'',
            msg_theatre = ''Theatre Y'', msg_shows = 1,
            button_url =
              ''https://in.bookmyshow.com/movies/kochi/officer-on-duty/buytickets/ET00431676/20250328''\<rparr>,
         delivered = False\<rparr>] \<and>
   (\<exists>ms sent.
      main (sample_world (\<lambda>i. if i = 0 then (rendered [] (\<lambda>k. True))\<lparr>Page_Element := None\<rparr>
        else rendered [theatre_element ''Theatre Y'' 1] (\<lambda>k. False))) =
        Completed
          (with_elems (Slice [sample ''20250327'' NilSlice, sample ''20250328'' NilSlice]) ms)
          True sent \<and>
      length ms = 2)"
proof -
  let ?envs = "\<lambda>i::nat. if i = 0 then (rendered [] (\<lambda>k. True))\<lparr>Page_Element := None\<rparr>
        else rendered [theatre_element ''Theatre Y'' 1] (\<lambda>k. False)"
  let ?ml = "Slice [sample ''20250327'' NilSlice, sample ''20250328'' NilSlice]"
  have loaded: "loadMoviesFromJSON (StateFile (sample_world ?envs)) = Inr ?ml"
    by (rule load_sample_world)
  have missing:
    "container_missing ((rendered [] (\<lambda>k. True))\<lparr>Page_Element := None\<rparr> :: TheatreElement TargetEnv)"
    by (simp add: container_missing_def rendered_def)
  have opens: "\<forall>i < length (elems ?ml). \<not> Found (elems ?ml ! i) \<longrightarrow>
          page_opens (Targets (sample_world ?envs) i) \<and>
          (container_missing (Targets (sample_world ?envs) i) \<or>
           names_found (Targets (sample_world ?envs) i) \<and> 8 \<le> length (Date (elems ?ml ! i)))"
  proof (intro allI impI)
    fix i assume "i < length (elems ?ml)"
    then have "i = 0 \<or> i = 1" by auto
    then show "page_opens (Targets (sample_world ?envs) i) \<and>
          (container_missing (Targets (sample_world ?envs) i) \<or>
           names_found (Targets (sample_world ?envs) i) \<and> 8 \<le> length (Date (elems ?ml ! i)))"
      by (auto simp: sample_world_def page_opens_def names_found_def rendered_def
          theatre_element_def sample_def container_missing_def)
  qed
  have run: "main (sample_world ?envs) =
     Completed
       (Slice [sample ''20250327'' NilSlice, sample ''20250328'' (Slice [''Theatre Y''])])
       True
       [\<lparr>message =
           \<lparr>msg_movie = ''Officer On Duty'', msg_date = ''28-03-2025'',
            msg_theatre = ''Theatre Y'', msg_shows = 1,
            button_url =
              ''https://in.bookmyshow.com/movies/kochi/officer-on-duty/buytickets/ET00431676/20250328''\<rparr>,
         delivered = False\<rparr>]"
    unfolding main_def load_sample_world
    by (simp add: sample_world_def with_elems_def processMovie_def rendered_def
        theatre_element_def extractTheatres_def Text_of_def reconcileAndNotify_def reconcile_def
        Contains_def append_slice_def notify_def formattedDate_def slice_string_def
        bookingURL_def sample_def)
  have written: "WriteFile (sample_world ?envs) = True"
    by (simp add: sample_world_def)
  from save_reached_when_pages_open[OF loaded, THEN conjunct1, THEN mp, OF opens]
  have reached: "\<exists>ms sent. main (sample_world ?envs) =
        Completed (with_elems ?ml ms) True sent \<and> length ms = 2"
    by (simp add: written numeral_2_eq_2)
  from loaded missing run reached show ?thesis by (intro conjI)
qed


text \<open>
  The claim as stated fails when the document of a target cannot be acquired. The
  first target's page lists Theatre X, which is notified; for the second,
  \<^verbatim>\<open>browser.Connect()\<close> fails and \<^verbatim>\<open>logger.Fatal\<close> ends the process, or
  \<^verbatim>\<open>MustNavigate\<close> panics and the deferred function returns from \<^verbatim>\<open>main\<close>:
  either way \<^verbatim>\<open>saveMoviesToJSON\<close> is not reached.
\<close>

theorem failed_connection_counterexample:
  "loadMoviesFromJSON
     (StateFile (sample_world (\<lambda>i. if i = 0 then rendered [theatre_element ''Theatre X'' 3] (\<lambda>k. True)
        else (rendered [] (\<lambda>k. True))\<lparr>Connect := False\<rparr>))) =
     Inr (Slice [sample ''20250327'' NilSlice, sample ''20250328'' NilSlice]) \<and>
   main (sample_world (\<lambda>i. if i = 0 then rendered [theatre_element ''Theatre X'' 3] (\<lambda>k. True)
        else (rendered [] (\<lambda>k. True))\<lparr>Connect := False\<rparr>)) = Exit1 \<and>
   main (sample_world (\<lambda>i. if i = 0 then rendered [theatre_element ''Theatre X'' 3] (\<lambda>k. True)
        else (rendered [] (\<lambda>k. True))\<lparr>MustNavigate := False\<rparr>)) = Recovered MustFailed"
proof -
  have fatal: "main (sample_world (\<lambda>i. if i = 0 then rendered [theatre_element ''Theatre X'' 3] (\<lambda>k. True)
        else (rendered [] (\<lambda>k. True))\<lparr>Connect := False\<rparr>)) = Exit1"
    unfolding main_def load_sample_world
    by (simp add: sample_world_def processMovie_def rendered_def
        theatre_element_def extractTheatres_def Text_of_def reconcileAndNotify_def reconcile_def
        Contains_def append_slice_def notify_def formattedDate_def slice_string_def
        bookingURL_def sample_def)
  have panic: "main (sample_world (\<lambda>i. if i = 0 then rendered [theatre_element ''Theatre X'' 3] (\<lambda>k. True)
        else (rendered [] (\<lambda>k. True))\<lparr>MustNavigate := False\<rparr>)) = Recovered MustFailed"
    unfolding main_def load_sample_world
    by (simp add: sample_world_def processMovie_def rendered_def
        theatre_element_def extractTheatres_def Text_of_def reconcileAndNotify_def reconcile_def
        Contains_def append_slice_def notify_def formattedDate_def slice_string_def
        bookingURL_def sample_def)
  from load_sample_world fatal panic show ?thesis by (intro conjI)
qed



end
